theory Spec2Isabelle
  imports Main "HOL-Library.Word" "HOL-Library.Sublist"
begin

section \<open>JavaScript strings\<close>

text \<open>
  A JavaScript string is a finite sequence of 16-bit UTF-16 code units. \<open>str.length\<close>,
  \<open>split('')\<close>, \<open>includes\<close>, regular expressions without the \<open>u\<close> flag and \<open>===\<close>
  work on code units; the string iterator (\<open>for (const char of str)\<close>, \<open>new Set(str)\<close>)
  walks code points and yields each one as a string of one or two code units.
\<close>

type_synonym code_unit = "16 word"
type_synonym jsstring = "code_unit list"

definition ascii :: "string \<Rightarrow> jsstring" where
  "ascii cs = map (\<lambda>c. of_nat (of_char c)) cs"

definition is_lead :: "code_unit \<Rightarrow> bool" where
  "is_lead u \<longleftrightarrow> 0xD800 \<le> u \<and> u \<le> 0xDBFF"

definition is_trail :: "code_unit \<Rightarrow> bool" where
  "is_trail u \<longleftrightarrow> 0xDC00 \<le> u \<and> u \<le> 0xDFFF"

text \<open>
  The string iterator: a leading surrogate followed by a trailing surrogate is one element
  of two code units, every other code unit (a lone surrogate included) is an element of its
  own.
\<close>

fun string_iterator :: "jsstring \<Rightarrow> jsstring list" where
  "string_iterator [] = []"
| "string_iterator [u] = [[u]]"
| "string_iterator (u # v # rest) =
     (if is_lead u \<and> is_trail v then [u, v] # string_iterator rest
      else [u] # string_iterator (v # rest))"

text \<open>The number of the code point that one element of the iterator stands for.\<close>

definition code_point :: "jsstring \<Rightarrow> nat" where
  "code_point c =
     (case c of
        [u] \<Rightarrow> unat u
      | [h, l] \<Rightarrow> 0x10000 + (unat h - 0xD800) * 0x400 + (unat l - 0xDC00)
      | _ \<Rightarrow> 0)"

definition code_points :: "jsstring \<Rightarrow> nat list" where
  "code_points s = map code_point (string_iterator s)"

text \<open>
  The class \<open>\s\<close> of a regular expression, which is also what \<open>trim\<close> strips:
  ECMAScript's WhiteSpace and LineTerminator code points.
\<close>

definition is_space :: "code_unit \<Rightarrow> bool" where
  "is_space u \<longleftrightarrow>
     u \<in> set [0x09, 0x0A, 0x0B, 0x0C, 0x0D, 0x20, 0xA0, 0x1680, 0x2028, 0x2029,
               0x202F, 0x205F, 0x3000, 0xFEFF]
     \<or> (0x2000 \<le> u \<and> u \<le> 0x200A)"

definition is_digit :: "code_unit \<Rightarrow> bool" where
  "is_digit u \<longleftrightarrow> 0x30 \<le> u \<and> u \<le> 0x39"

definition trim :: "jsstring \<Rightarrow> jsstring" where
  "trim s = rev (dropWhile is_space (rev (dropWhile is_space s)))"

text \<open>
  \<open>s.split(/\s+/)\<close>: the pieces between the maximal runs of whitespace, an empty piece
  before a leading run and after a trailing one; a string with no whitespace (the empty
  string too) is one piece.
\<close>

fun split_ws :: "bool \<Rightarrow> jsstring \<Rightarrow> jsstring \<Rightarrow> jsstring list" where
  "split_ws in_sep cur [] = [cur]"
| "split_ws in_sep cur (c # cs) =
     (if is_space c
      then (if in_sep then split_ws True cur cs else cur # split_ws True [] cs)
      else split_ws False (cur @ [c]) cs)"

definition split_whitespace :: "jsstring \<Rightarrow> jsstring list" where
  "split_whitespace s = split_ws False [] s"

text \<open>\<open>s.split('')\<close> and \<open>parts.join('')\<close>.\<close>

definition split_units :: "jsstring \<Rightarrow> jsstring list" where
  "split_units s = map (\<lambda>u. [u]) s"

definition join_empty :: "jsstring list \<Rightarrow> jsstring" where
  "join_empty parts = concat parts"

text \<open>\<open>s.includes(t)\<close>: \<open>t\<close> occurs in \<open>s\<close> as a run of consecutive code units.\<close>

fun js_includes :: "jsstring \<Rightarrow> jsstring \<Rightarrow> bool" where
  "js_includes [] t = (t = [])"
| "js_includes (c # cs) t = (prefix t (c # cs) \<or> js_includes cs t)"

section \<open>Numbers and parseInt\<close>

text \<open>
  A JavaScript number as far as the service uses one: \<open>NaN\<close>, an integer that a double
  holds exactly, or an infinity. (\<open>-0\<close> is not told apart from \<open>0\<close>.) \<open>to_number\<close> is
  the conversion of a mathematical integer to a number, rounding to the nearest double,
  ties to the even significand: integers below \<open>2^53\<close> in magnitude are exact, larger
  ones keep 53 significant bits, and what rounds to \<open>2^1024\<close> or beyond is an infinity.
\<close>

datatype jsnum = NaN | Num int | PosInfinity | NegInfinity

definition isNaN :: "jsnum \<Rightarrow> bool" where
  "isNaN n \<longleftrightarrow> n = NaN"

text \<open>The number of binary digits of a positive integer.\<close>

function bit_length :: "int \<Rightarrow> nat" where
  "bit_length m = (if m \<le> 0 then 0 else Suc (bit_length (m div 2)))"
  by pat_completeness auto
termination
  by (relation "measure nat") auto

declare bit_length.simps [simp del]

definition round_to_double :: "int \<Rightarrow> int" where
  "round_to_double m =
     (if m < 2 ^ 53 then m
      else (let e = bit_length m - 53;
                q = m div 2 ^ e;
                r = m mod 2 ^ e;
                half = 2 ^ (e - 1);
                q' = (if half < r \<or> (r = half \<and> odd q) then q + 1 else q)
            in q' * 2 ^ e))"

definition to_number :: "int \<Rightarrow> jsnum" where
  "to_number i =
     (let m = round_to_double \<bar>i\<bar>
      in if 2 ^ 1024 \<le> m then (if i < 0 then NegInfinity else PosInfinity)
         else Num (if i < 0 then - m else m))"

text \<open>\<open>n + k\<close> for an integer \<open>k\<close>: the exact sum, rounded.\<close>

definition num_add :: "jsnum \<Rightarrow> int \<Rightarrow> jsnum" where
  "num_add n k =
     (case n of NaN \<Rightarrow> NaN | Num i \<Rightarrow> to_number (i + k)
      | PosInfinity \<Rightarrow> PosInfinity | NegInfinity \<Rightarrow> NegInfinity)"

definition digit_val :: "code_unit \<Rightarrow> nat option" where
  "digit_val u =
     (if 0x30 \<le> u \<and> u \<le> 0x39 then Some (unat u - 0x30)
      else if 0x61 \<le> u \<and> u \<le> 0x7A then Some (unat u - 0x61 + 10)
      else if 0x41 \<le> u \<and> u \<le> 0x5A then Some (unat u - 0x41 + 10)
      else None)"

definition radix_digit :: "nat \<Rightarrow> code_unit \<Rightarrow> bool" where
  "radix_digit R u = (case digit_val u of None \<Rightarrow> False | Some d \<Rightarrow> d < R)"

definition digits_value :: "nat \<Rightarrow> jsstring \<Rightarrow> int" where
  "digits_value R Z =
     foldl (\<lambda>acc u. acc * int R + int (case digit_val u of None \<Rightarrow> 0 | Some d \<Rightarrow> d)) 0 Z"

text \<open>
  \<open>parseInt(s)\<close> with no radix: leading whitespace is skipped, then an optional sign, then
  an optional \<open>0x\<close> or \<open>0X\<close> (radix 16, else 10), then the longest run of digits of the
  radix; whatever follows is ignored. No digit at all gives \<open>NaN\<close>; otherwise the result
  is the number nearest to the integer the digits denote. (For more than 20 decimal digits
  the standard lets an implementation round the digits first; the rounding here is the
  exact one.)
\<close>

definition parseInt :: "jsstring \<Rightarrow> jsnum" where
  "parseInt s =
     (let S = dropWhile is_space s;
          sign = (if prefix (ascii ''-'') S then - 1 else (1::int));
          S1 = (if prefix (ascii ''-'') S \<or> prefix (ascii ''+'') S then drop 1 S else S);
          hex = (prefix (ascii ''0x'') S1 \<or> prefix (ascii ''0X'') S1);
          R = (if hex then 16 else 10);
          S2 = (if hex then drop 2 S1 else S1);
          Z = takeWhile (radix_digit R) S2
      in if Z = [] then NaN else to_number (sign * digits_value R Z))"

section \<open>Regular expressions\<close>

text \<open>
  The four expressions of \<open>parseNaturalLanguage\<close> use literals, the classes \<open>\d\<close>, \<open>\s\<close>
  and \<open>[a-z]\<close>, \<open>+\<close> on a class, optional non-capturing groups, one alternative and one
  capture group. \<open>rx_matches r s\<close> lists every way \<open>r\<close> matches a prefix of \<open>s\<close>, in the
  order in which a backtracking matcher tries them (greedy first), each with the text of
  the capture group and the rest of the input; the head of the list is the match that
  JavaScript reports at that position.
\<close>

datatype regex =
    Chars jsstring
  | OneOf "code_unit \<Rightarrow> bool"
  | Many1 "code_unit \<Rightarrow> bool"
  | Opt regex
  | Alt regex regex
  | Seq regex regex
  | Group regex

fun rx_matches :: "regex \<Rightarrow> jsstring \<Rightarrow> (jsstring option \<times> jsstring) list" where
  "rx_matches (Chars t) s = (if prefix t s then [(None, drop (length t) s)] else [])"
| "rx_matches (OneOf p) s = (case s of [] \<Rightarrow> [] | c # r \<Rightarrow> if p c then [(None, r)] else [])"
| "rx_matches (Many1 p) s =
     map (\<lambda>k. (None, drop k s)) (rev [1 ..< Suc (length (takeWhile p s))])"
| "rx_matches (Opt r) s = rx_matches r s @ [(None, s)]"
| "rx_matches (Alt r1 r2) s = rx_matches r1 s @ rx_matches r2 s"
| "rx_matches (Seq r1 r2) s =
     concat (map (\<lambda>m1. map (\<lambda>m2. (case fst m2 of None \<Rightarrow> fst m1 | Some g \<Rightarrow> Some g, snd m2))
                              (rx_matches r2 (snd m1)))
                 (rx_matches r1 s))"
| "rx_matches (Group r) s =
     map (\<lambda>m. (Some (take (length s - length (snd m)) s), snd m)) (rx_matches r s)"

text \<open>
  \<open>s.match(r)\<close> for an expression without the \<open>g\<close> flag: the first match at the leftmost
  position that has one, or \<open>null\<close>. The result is the text of group 1.
\<close>

fun rx_search :: "regex \<Rightarrow> jsstring \<Rightarrow> jsstring option option" where
  "rx_search r [] = (case rx_matches r [] of [] \<Rightarrow> None | m # _ \<Rightarrow> Some (fst m))"
| "rx_search r (c # cs) =
     (case rx_matches r (c # cs) of [] \<Rightarrow> rx_search r cs | m # _ \<Rightarrow> Some (fst m))"

definition is_az :: "code_unit \<Rightarrow> bool" where
  "is_az u \<longleftrightarrow> 0x61 \<le> u \<and> u \<le> 0x7A"

text \<open>\<open>/(\d+)\s+word/\<close>\<close>

definition wordCountRe :: regex where
  "wordCountRe = Seq (Group (Many1 is_digit)) (Seq (Many1 is_space) (Chars (ascii ''word'')))"

text \<open>\<open>/longer than (\d+)/\<close>\<close>

definition longerRe :: regex where
  "longerRe = Seq (Chars (ascii ''longer than '')) (Group (Many1 is_digit))"

text \<open>\<open>/shorter than (\d+)/\<close>\<close>

definition shorterRe :: regex where
  "shorterRe = Seq (Chars (ascii ''shorter than '')) (Group (Many1 is_digit))"

text \<open>\<open>/contain(?:ing|s)?\s+(?:the\s+)?(?:letter\s+)?([a-z])/\<close>\<close>

definition containsRe :: regex where
  "containsRe =
     Seq (Chars (ascii ''contain''))
    (Seq (Opt (Alt (Chars (ascii ''ing'')) (Chars (ascii ''s''))))
    (Seq (Many1 is_space)
    (Seq (Opt (Seq (Chars (ascii ''the'')) (Many1 is_space)))
    (Seq (Opt (Seq (Chars (ascii ''letter'')) (Many1 is_space)))
         (Group (OneOf is_az))))))"

section \<open>Records of the store, filters and queries\<close>

record properties =
  length_p :: nat
  is_palindrome :: bool
  unique_characters :: nat
  word_count :: nat
  sha256_hash :: jsstring
  character_frequency_map :: "(jsstring \<times> nat) list"

text \<open>A document of the collection; \<open>created_at\<close> in milliseconds.\<close>

record doc =
  doc_id :: jsstring
  doc_value :: jsstring
  doc_properties :: properties
  created_at :: nat

text \<open>The collection, in insertion order.\<close>

type_synonym store = "doc list"

text \<open>
  The filter object (\<open>filters\<close> of \<open>parseNaturalLanguage\<close>, \<open>filtersApplied\<close> of the list
  route): a field is \<open>None\<close> while the property is not set.
\<close>

record filters =
  f_word_count :: "jsnum option"
  f_is_palindrome :: "bool option"
  f_min_length :: "jsnum option"
  f_max_length :: "jsnum option"
  f_contains_character :: "jsstring option"

definition no_filters :: filters where
  "no_filters = \<lparr> f_word_count = None, f_is_palindrome = None, f_min_length = None,
                   f_max_length = None, f_contains_character = None \<rparr>"

text \<open>\<open>Object.keys(filters).length\<close>\<close>

definition filters_keys :: "filters \<Rightarrow> nat" where
  "filters_keys f =
     (if f_word_count f = None then 0 else 1) + (if f_is_palindrome f = None then 0 else 1)
     + (if f_min_length f = None then 0 else 1) + (if f_max_length f = None then 0 else 1)
     + (if f_contains_character f = None then 0 else 1)"

text \<open>
  The MongoDB query document the routes build: \<open>properties.is_palindrome\<close>,
  \<open>properties.length\<close> with \<open>$gte\<close> and \<open>$lte\<close>, \<open>properties.word_count\<close>, and the key
  \<open>c\<close> of \<open>properties.character_frequency_map.c\<close> with \<open>{$exists: true, $gte: 1}\<close>.
\<close>

record mquery =
  q_is_palindrome :: "bool option"
  q_length_gte :: "jsnum option"
  q_length_lte :: "jsnum option"
  q_word_count :: "jsnum option"
  q_has_char :: "jsstring option"

definition no_query :: mquery where
  "no_query = \<lparr> q_is_palindrome = None, q_length_gte = None, q_length_lte = None,
                 q_word_count = None, q_has_char = None \<rparr>"

section \<open>The platform\<close>

text \<open>
  What the service calls and the repository does not contain is taken as a parameter:
  the SHA-256 hex digest of \<open>crypto\<close>; \<open>String.prototype.toLowerCase\<close> (its result rests
  on the Unicode case tables); the decoding of percent escapes by \<open>decodeURIComponent\<close>
  (\<open>None\<close> for a malformed escape, which throws); whether Mongoose and the server accept a
  document on insert apart from the unique keys (the schema's validators); and the
  evaluation of \<open>find(query).sort({created_at: -1})\<close>. Every theorem below that mentions
  a platform \<open>P\<close> holds for every choice of the five.
\<close>

record platform =
  sha256_hex :: "jsstring \<Rightarrow> jsstring"
  toLowerCase :: "jsstring \<Rightarrow> jsstring"
  pct_decode :: "jsstring \<Rightarrow> jsstring option"
  accepts :: "doc \<Rightarrow> bool"
  find_sorted :: "mquery \<Rightarrow> store \<Rightarrow> doc list"

text \<open>
  A concrete platform for evaluation. Lowercasing maps the letters A to Z and leaves every
  other code unit unchanged: it agrees with \<open>toLowerCase\<close> on every string whose characters
  outside A to Z have no lowercase mapping (digits, punctuation, whitespace, lowercase
  ASCII letters, emoji), which covers every concrete string evaluated below. The digest is
  a stand-in, the identity, which like SHA-256 sends equal strings to equal digests.
  Percent escapes are all refused, the insert accepts every document with a non-empty
  value, and the query is evaluated field by field on integers.
\<close>

definition lower_unit :: "code_unit \<Rightarrow> code_unit" where
  "lower_unit u = (if 0x41 \<le> u \<and> u \<le> 0x5A then u + 0x20 else u)"

definition num_le :: "jsnum \<Rightarrow> jsnum \<Rightarrow> bool" where
  "num_le a b =
     (case (a, b) of
        (NaN, _) \<Rightarrow> False | (_, NaN) \<Rightarrow> False
      | (NegInfinity, _) \<Rightarrow> True | (_, PosInfinity) \<Rightarrow> True
      | (Num i, Num j) \<Rightarrow> i \<le> j
      | _ \<Rightarrow> False)"

definition basic_match :: "mquery \<Rightarrow> doc \<Rightarrow> bool" where
  "basic_match q d =
     (let p = doc_properties d in
        (case q_is_palindrome q of None \<Rightarrow> True | Some b \<Rightarrow> is_palindrome p = b)
      \<and> (case q_length_gte q of None \<Rightarrow> True | Some n \<Rightarrow> num_le n (Num (int (length_p p))))
      \<and> (case q_length_lte q of None \<Rightarrow> True | Some n \<Rightarrow> num_le (Num (int (length_p p))) n)
      \<and> (case q_word_count q of None \<Rightarrow> True | Some n \<Rightarrow> n = Num (int (word_count p)))
      \<and> (case q_has_char q of None \<Rightarrow> True
          | Some c \<Rightarrow> (case map_of (character_frequency_map p) c of
                         None \<Rightarrow> False | Some k \<Rightarrow> 1 \<le> k)))"

definition basic_find :: "mquery \<Rightarrow> store \<Rightarrow> doc list" where
  "basic_find q st = rev (sort_key created_at (filter (basic_match q) st))"

definition basic_platform :: platform where
  "basic_platform =
     \<lparr> sha256_hex = (\<lambda>s. s), toLowerCase = map lower_unit, pct_decode = (\<lambda>s. None),
       accepts = (\<lambda>d. doc_value d \<noteq> []), find_sorted = basic_find \<rparr>"

section \<open>The analyzer: computeProperties\<close>

text \<open>
  \<open>new Set(iterable)\<close> keeps the first occurrence of each element, in insertion order;
  its \<open>size\<close> is the length of that list.
\<close>

definition set_add :: "'a list \<Rightarrow> 'a \<Rightarrow> 'a list" where
  "set_add xs x = (if x \<in> set xs then xs else xs @ [x])"

definition new_Set :: "'a list \<Rightarrow> 'a list" where
  "new_Set it = foldl set_add [] it"

text \<open>
  A plain object such as \<open>charFreqMap\<close> or \<open>req.query\<close>: its own properties as a list of
  key and value. Reading a missing key gives \<open>undefined\<close> (\<open>None\<close>); writing replaces the
  value of a key that is there and appends a new key. (The order in which JavaScript
  enumerates the keys is not represented: it puts integer-like keys such as "1" first.)
  Counts are natural numbers: they stay far below \<open>2^53\<close>, where a JavaScript number is
  exact.
\<close>

fun obj_get :: "('k \<times> 'v) list \<Rightarrow> 'k \<Rightarrow> 'v option" where
  "obj_get [] k = None"
| "obj_get ((k', v') # m) k = (if k' = k then Some v' else obj_get m k)"

fun obj_set :: "('k \<times> 'v) list \<Rightarrow> 'k \<Rightarrow> 'v \<Rightarrow> ('k \<times> 'v) list" where
  "obj_set [] k v = [(k, v)]"
| "obj_set ((k', v') # m) k v = (if k' = k then (k, v) # m else (k', v') # obj_set m k v)"

definition object_keys :: "('k \<times> 'v) list \<Rightarrow> 'k list" where
  "object_keys m = map fst m"

text \<open>\<open>x || 0\<close> for a count \<open>x\<close> that may be \<open>undefined\<close>.\<close>

definition or_zero :: "nat option \<Rightarrow> nat" where
  "or_zero x = (case x of None \<Rightarrow> 0 | Some n \<Rightarrow> n)"

fun char_freq_loop :: "(jsstring \<times> nat) list \<Rightarrow> jsstring list \<Rightarrow> (jsstring \<times> nat) list" where
  "char_freq_loop m [] = m"
| "char_freq_loop m (c # cs) = char_freq_loop (obj_set m c (or_zero (obj_get m c) + 1)) cs"

text \<open>\<open>str.toLowerCase().replace(/\s/g, '')\<close>\<close>

definition normalized :: "platform \<Rightarrow> jsstring \<Rightarrow> jsstring" where
  "normalized P str = filter (\<lambda>u. \<not> is_space u) (toLowerCase P str)"

definition computeProperties :: "platform \<Rightarrow> jsstring \<Rightarrow> properties" where
  "computeProperties P str =
     (let sha256 = sha256_hex P str;
          normalizedStr = normalized P str;
          isPalindrome = (normalizedStr = join_empty (rev (split_units normalizedStr)));
          uniqueChars = length (new_Set (string_iterator str));
          wordCount = length (filter (\<lambda>w. length w > 0) (split_whitespace (trim str)));
          charFreqMap = char_freq_loop [] (string_iterator str)
      in \<lparr> length_p = length str,
           is_palindrome = isPalindrome,
           unique_characters = uniqueChars,
           word_count = wordCount,
           sha256_hash = sha256,
           character_frequency_map = charFreqMap \<rparr>)"

section \<open>The interpreter: parseNaturalLanguage\<close>

text \<open>
  The rules run in the order of the source on one filter object; an assignment replaces
  what an earlier rule stored in the same field. In each of the four expressions the
  capture group stands outside every optional part, so a match always has a group 1
  (\<open>rx_search_group\<close> below); for a missing group, \<open>parseInt(undefined)\<close> is \<open>NaN\<close>.
\<close>

definition parseInt_group :: "jsstring option \<Rightarrow> jsnum" where
  "parseInt_group g = (case g of None \<Rightarrow> NaN | Some s \<Rightarrow> parseInt s)"

definition parseNaturalLanguage :: "platform \<Rightarrow> jsstring \<Rightarrow> filters" where
  "parseNaturalLanguage P query =
     (let lowerQuery = toLowerCase P query;
          f1 = (if js_includes lowerQuery (ascii ''single word'')
                then no_filters\<lparr> f_word_count := Some (Num 1) \<rparr>
                else (case rx_search wordCountRe lowerQuery of
                        None \<Rightarrow> no_filters
                      | Some g \<Rightarrow> no_filters\<lparr> f_word_count := Some (parseInt_group g) \<rparr>));
          f2 = (if js_includes lowerQuery (ascii ''palindrom'')
                then f1\<lparr> f_is_palindrome := Some True \<rparr> else f1);
          f3 = (case rx_search longerRe lowerQuery of
                  None \<Rightarrow> f2
                | Some g \<Rightarrow> f2\<lparr> f_min_length := Some (num_add (parseInt_group g) 1) \<rparr>);
          f4 = (case rx_search shorterRe lowerQuery of
                  None \<Rightarrow> f3
                | Some g \<Rightarrow> f3\<lparr> f_max_length := Some (num_add (parseInt_group g) (- 1)) \<rparr>);
          f5 = (case rx_search containsRe lowerQuery of
                  None \<Rightarrow> f4
                | Some g \<Rightarrow> f4\<lparr> f_contains_character := g \<rparr>);
          f6 = (if js_includes lowerQuery (ascii ''first vowel'')
                then f5\<lparr> f_contains_character := Some (ascii ''a'') \<rparr> else f5)
      in f6)"

section \<open>Requests, responses and the persistence calls\<close>

text \<open>
  The distinct failures the routes answer with, under the names of the specification;
  \<open>InvalidFilterValue\<close> carries the field the message names. \<open>BadRequest\<close> and \<open>NoRoute\<close>
  are answered by Express itself (a parameter that does not decode, no matching route).
\<close>

datatype error_kind =
    MissingField | InvalidType | Conflict | NotFound | InvalidFilterValue string
  | UnparsableQuery | InternalError | BadRequest | NoRoute

definition status_code :: "error_kind \<Rightarrow> nat" where
  "status_code e =
     (case e of MissingField \<Rightarrow> 400 | InvalidType \<Rightarrow> 422 | Conflict \<Rightarrow> 409 | NotFound \<Rightarrow> 404
      | InvalidFilterValue _ \<Rightarrow> 400 | UnparsableQuery \<Rightarrow> 400 | InternalError \<Rightarrow> 500
      | BadRequest \<Rightarrow> 400 | NoRoute \<Rightarrow> 404)"

datatype response =
    Failure error_kind
  | Created doc
  | Found doc
  | Listed "doc list" nat filters
  | Interpreted "doc list" nat jsstring filters
  | NoContent
  | Healthy

text \<open>The field \<open>value\<close> of the request body, after \<open>express.json()\<close>.\<close>

datatype json = JUndefined | JNull | JString jsstring | JNonString

text \<open>A value of \<open>req.query\<close>: a string, or an array or object for a repeated or bracketed key.\<close>

datatype qvalue = QStr jsstring | QArr "qvalue list" | QObj "(jsstring \<times> qvalue) list"

type_synonym query_params = "(jsstring \<times> qvalue) list"

fun join_comma :: "jsstring list \<Rightarrow> jsstring" where
  "join_comma [] = []"
| "join_comma [s] = s"
| "join_comma (s # t # rest) = s @ ascii '','' @ join_comma (t # rest)"

text \<open>\<open>ToString\<close>, which \<open>parseInt\<close> applies to an argument that is not a string.\<close>

fun to_string :: "qvalue \<Rightarrow> jsstring" where
  "to_string (QStr s) = s"
| "to_string (QArr vs) = join_comma (map to_string vs)"
| "to_string (QObj kvs) = ascii ''[object Object]''"

text \<open>\<open>!v\<close> for a query value: only the empty string is falsy.\<close>

definition falsy :: "qvalue \<Rightarrow> bool" where
  "falsy v \<longleftrightarrow> v = QStr []"

text \<open>
  What the request, the store and the interpreter see of a call, in order: the calls to
  the persistence layer and to \<open>parseNaturalLanguage\<close>.
\<close>

datatype event =
    FindById jsstring
  | Save doc
  | FindOne jsstring
  | Find mquery
  | FindOneAndDelete jsstring
  | Interpret qvalue

section \<open>The persistence layer\<close>

definition findById :: "store \<Rightarrow> jsstring \<Rightarrow> doc option" where
  "findById st i = find (\<lambda>d. doc_id d = i) st"

definition findOne_value :: "store \<Rightarrow> jsstring \<Rightarrow> doc option" where
  "findOne_value st v = find (\<lambda>d. doc_value d = v) st"

text \<open>
  \<open>save\<close> of a new document: an insert, refused (the promise rejects) when the validators
  refuse the document, when the \<open>_id\<close> is taken, or when the unique index on \<open>value\<close>
  has the value.
\<close>

definition save :: "platform \<Rightarrow> store \<Rightarrow> doc \<Rightarrow> store option" where
  "save P st d =
     (if \<not> accepts P d \<or> doc_id d \<in> set (map doc_id st) \<or> doc_value d \<in> set (map doc_value st)
      then None else Some (st @ [d]))"

fun remove_first :: "('a \<Rightarrow> bool) \<Rightarrow> 'a list \<Rightarrow> 'a list" where
  "remove_first p [] = []"
| "remove_first p (x # xs) = (if p x then xs else x # remove_first p xs)"

definition findOneAndDelete :: "store \<Rightarrow> jsstring \<Rightarrow> doc option \<times> store" where
  "findOneAndDelete st v =
     (find (\<lambda>d. doc_value d = v) st, remove_first (\<lambda>d. doc_value d = v) st)"

section \<open>The routes\<close>

text \<open>
  \<open>decodeURIComponent\<close>: a string without \<open>%\<close> is returned as it is; the escapes of any
  other string are the platform's to decode.
\<close>

definition decodeURIComponent :: "platform \<Rightarrow> jsstring \<Rightarrow> jsstring option" where
  "decodeURIComponent P s = (if 0x25 \<in> set s then pct_decode P s else Some s)"

subsection \<open>POST /strings\<close>

text \<open>
  The route awaits the store twice. \<open>create_check\<close> is the route up to the answer of
  \<open>findById\<close>: it ends the request (\<open>Inl\<close>) or leaves a document to insert (\<open>Inr\<close>).
  \<open>create_save\<close> is the rest: the insert and the response; a rejected insert is caught
  by the route's \<open>catch\<close>, which answers 500.
\<close>

definition create_check ::
  "platform \<Rightarrow> nat \<Rightarrow> json \<Rightarrow> store \<Rightarrow> (response \<times> event list) + (doc \<times> event list)" where
  "create_check P now body_value st =
     (case body_value of
        JUndefined \<Rightarrow> Inl (Failure MissingField, [])
      | JNull \<Rightarrow> Inl (Failure MissingField, [])
      | JNonString \<Rightarrow> Inl (Failure InvalidType, [])
      | JString v \<Rightarrow>
          (let properties = computeProperties P v;
               sha256Hash = sha256_hash properties
           in case findById st sha256Hash of
                Some existing \<Rightarrow> Inl (Failure Conflict, [FindById sha256Hash])
              | None \<Rightarrow>
                  Inr (\<lparr> doc_id = sha256Hash, doc_value = v, doc_properties = properties,
                         created_at = now \<rparr>, [FindById sha256Hash])))"

definition create_save :: "platform \<Rightarrow> doc \<Rightarrow> store \<Rightarrow> response \<times> store \<times> event list" where
  "create_save P newString st =
     (case save P st newString of
        None \<Rightarrow> (Failure InternalError, st, [Save newString])
      | Some st' \<Rightarrow> (Created newString, st', [Save newString]))"

text \<open>One request served alone: both parts on the same store.\<close>

definition post_strings ::
  "platform \<Rightarrow> nat \<Rightarrow> json \<Rightarrow> store \<Rightarrow> response \<times> store \<times> event list" where
  "post_strings P now body_value st =
     (case create_check P now body_value st of
        Inl (r, ev) \<Rightarrow> (r, st, ev)
      | Inr (newString, ev) \<Rightarrow>
          (case create_save P newString st of (r, st', ev') \<Rightarrow> (r, st', ev @ ev')))"

subsection \<open>GET /strings/:string_value and DELETE /strings/:string_value\<close>

text \<open>
  Express has decoded the parameter once when the route runs; the route decodes it again
  (a failure there is caught and answered 500).
\<close>

definition get_string :: "platform \<Rightarrow> jsstring \<Rightarrow> store \<Rightarrow> response \<times> event list" where
  "get_string P string_value st =
     (case decodeURIComponent P string_value of
        None \<Rightarrow> (Failure InternalError, [])
      | Some decodedValue \<Rightarrow>
          (case findOne_value st decodedValue of
             None \<Rightarrow> (Failure NotFound, [FindOne decodedValue])
           | Some stringDoc \<Rightarrow> (Found stringDoc, [FindOne decodedValue])))"

definition delete_string ::
  "platform \<Rightarrow> jsstring \<Rightarrow> store \<Rightarrow> response \<times> store \<times> event list" where
  "delete_string P string_value st =
     (case decodeURIComponent P string_value of
        None \<Rightarrow> (Failure InternalError, st, [])
      | Some decodedValue \<Rightarrow>
          (case findOneAndDelete st decodedValue of
             (None, st') \<Rightarrow> (Failure NotFound, st', [FindOneAndDelete decodedValue])
           | (Some result, st') \<Rightarrow> (NoContent, st', [FindOneAndDelete decodedValue])))"

subsection \<open>GET /strings\<close>

text \<open>
  The route reads the five parameters in a fixed order; each block either ends the request
  with status 400 or extends the query and \<open>filtersApplied\<close>.
\<close>

type_synonym building = "mquery \<times> filters"

definition apply_is_palindrome :: "qvalue option \<Rightarrow> building \<Rightarrow> error_kind + building" where
  "apply_is_palindrome p b =
     (case p of
        None \<Rightarrow> Inr b
      | Some v \<Rightarrow>
          (let isPalin = (v = QStr (ascii ''true''))
           in Inr ((fst b)\<lparr> q_is_palindrome := Some isPalin \<rparr>,
                   (snd b)\<lparr> f_is_palindrome := Some isPalin \<rparr>)))"

definition apply_min_length :: "qvalue option \<Rightarrow> building \<Rightarrow> error_kind + building" where
  "apply_min_length p b =
     (case p of
        None \<Rightarrow> Inr b
      | Some v \<Rightarrow>
          (let minLen = parseInt (to_string v)
           in if isNaN minLen then Inl (InvalidFilterValue ''min_length'')
              else Inr ((fst b)\<lparr> q_length_gte := Some minLen \<rparr>,
                        (snd b)\<lparr> f_min_length := Some minLen \<rparr>)))"

definition apply_max_length :: "qvalue option \<Rightarrow> building \<Rightarrow> error_kind + building" where
  "apply_max_length p b =
     (case p of
        None \<Rightarrow> Inr b
      | Some v \<Rightarrow>
          (let maxLen = parseInt (to_string v)
           in if isNaN maxLen then Inl (InvalidFilterValue ''max_length'')
              else Inr ((fst b)\<lparr> q_length_lte := Some maxLen \<rparr>,
                        (snd b)\<lparr> f_max_length := Some maxLen \<rparr>)))"

definition apply_word_count :: "qvalue option \<Rightarrow> building \<Rightarrow> error_kind + building" where
  "apply_word_count p b =
     (case p of
        None \<Rightarrow> Inr b
      | Some v \<Rightarrow>
          (let wc = parseInt (to_string v)
           in if isNaN wc then Inl (InvalidFilterValue ''word_count'')
              else Inr ((fst b)\<lparr> q_word_count := Some wc \<rparr>,
                        (snd b)\<lparr> f_word_count := Some wc \<rparr>)))"

definition apply_contains_character :: "qvalue option \<Rightarrow> building \<Rightarrow> error_kind + building" where
  "apply_contains_character p b =
     (case p of
        None \<Rightarrow> Inr b
      | Some (QStr c) \<Rightarrow>
          (if length c \<noteq> 1 then Inl (InvalidFilterValue ''contains_character'')
           else Inr ((fst b)\<lparr> q_has_char := Some c \<rparr>,
                     (snd b)\<lparr> f_contains_character := Some c \<rparr>))
      | Some _ \<Rightarrow> Inl (InvalidFilterValue ''contains_character''))"

definition and_then :: "'e + 'a \<Rightarrow> ('a \<Rightarrow> 'e + 'a) \<Rightarrow> 'e + 'a" where
  "and_then r f = (case r of Inl e \<Rightarrow> Inl e | Inr b \<Rightarrow> f b)"

definition build_query :: "query_params \<Rightarrow> error_kind + building" where
  "build_query q =
     and_then (and_then (and_then (and_then
       (apply_is_palindrome (obj_get q (ascii ''is_palindrome'')) (no_query, no_filters))
       (apply_min_length (obj_get q (ascii ''min_length''))))
       (apply_max_length (obj_get q (ascii ''max_length''))))
       (apply_word_count (obj_get q (ascii ''word_count''))))
       (apply_contains_character (obj_get q (ascii ''contains_character'')))"

definition get_strings :: "platform \<Rightarrow> query_params \<Rightarrow> store \<Rightarrow> response \<times> event list" where
  "get_strings P q st =
     (case build_query q of
        Inl e \<Rightarrow> (Failure e, [])
      | Inr (query, filtersApplied) \<Rightarrow>
          (let data = find_sorted P query st
           in (Listed data (length data) filtersApplied, [Find query])))"

subsection \<open>GET /strings/filter-by-natural-language\<close>

text \<open>
  \<open>interpret_query\<close> is the interpreter as the route uses it: \<open>parseNaturalLanguage\<close>,
  then the refusal of a result with no key.
\<close>

definition interpret_query :: "platform \<Rightarrow> jsstring \<Rightarrow> error_kind + filters" where
  "interpret_query P nlQuery =
     (let parsedFilters = parseNaturalLanguage P nlQuery
      in if filters_keys parsedFilters = 0 then Inl UnparsableQuery else Inr parsedFilters)"

definition db_query :: "filters \<Rightarrow> mquery" where
  "db_query parsedFilters =
     \<lparr> q_is_palindrome = f_is_palindrome parsedFilters,
       q_length_gte = f_min_length parsedFilters,
       q_length_lte = f_max_length parsedFilters,
       q_word_count = f_word_count parsedFilters,
       q_has_char = f_contains_character parsedFilters \<rparr>"

text \<open>
  A query value that is not a string has no \<open>toLowerCase\<close>: the call to
  \<open>parseNaturalLanguage\<close> throws and the route's \<open>catch\<close> answers 500.
\<close>

definition natural_language :: "platform \<Rightarrow> query_params \<Rightarrow> store \<Rightarrow> response \<times> event list" where
  "natural_language P q st =
     (case obj_get q (ascii ''query'') of
        None \<Rightarrow> (Failure MissingField, [])
      | Some v \<Rightarrow>
          if falsy v then (Failure MissingField, [])
          else (case v of
                  QStr nlQuery \<Rightarrow>
                    (case interpret_query P nlQuery of
                       Inl e \<Rightarrow> (Failure e, [Interpret v])
                     | Inr parsedFilters \<Rightarrow>
                         (let dbQuery = db_query parsedFilters;
                              data = find_sorted P dbQuery st
                          in (Interpreted data (length data) nlQuery parsedFilters,
                              [Interpret v, Find dbQuery])))
                | _ \<Rightarrow> (Failure InternalError, [Interpret v])))"

section \<open>Routing\<close>

text \<open>
  Express tries the routes in the order of their registration and runs the first whose
  method and path match; every route of the service answers, none passes the request on.
  A path is the list of its segments between the slashes (none of them empty); a literal
  segment of a route matches without regard to the case of ASCII letters, and a parameter
  matches any segment.
\<close>

datatype http_method = GET | POST | DELETE | OTHER

datatype segment = Literal jsstring | Param

datatype handler = H_create | H_get | H_list | H_natural_language | H_delete | H_health

definition routes :: "(http_method \<times> segment list \<times> handler) list" where
  "routes =
     [(POST, [Literal (ascii ''strings'')], H_create),
      (GET, [Literal (ascii ''strings''), Param], H_get),
      (GET, [Literal (ascii ''strings'')], H_list),
      (GET, [Literal (ascii ''strings''), Literal (ascii ''filter-by-natural-language'')],
         H_natural_language),
      (DELETE, [Literal (ascii ''strings''), Param], H_delete),
      (GET, [Literal (ascii ''health'')], H_health)]"

definition segment_matches :: "segment \<Rightarrow> jsstring \<Rightarrow> bool" where
  "segment_matches p s =
     (case p of Param \<Rightarrow> True | Literal t \<Rightarrow> map lower_unit s = map lower_unit t)"

definition path_matches :: "segment list \<Rightarrow> jsstring list \<Rightarrow> bool" where
  "path_matches pat path \<longleftrightarrow> list_all2 segment_matches pat path"

text \<open>The raw text of the segment a route's parameter matched.\<close>

fun param_of :: "segment list \<Rightarrow> jsstring list \<Rightarrow> jsstring option" where
  "param_of (Param # pat) (s # path) = Some s"
| "param_of (Literal t # pat) (s # path) = param_of pat path"
| "param_of pat path = None"

fun dispatch_in ::
  "(http_method \<times> segment list \<times> handler) list \<Rightarrow> http_method \<Rightarrow> jsstring list
     \<Rightarrow> (handler \<times> jsstring option) option" where
  "dispatch_in [] m path = None"
| "dispatch_in ((m', pat, h) # rs) m path =
     (if m' = m \<and> path_matches pat path then Some (h, param_of pat path)
      else dispatch_in rs m path)"

definition dispatch :: "http_method \<Rightarrow> jsstring list \<Rightarrow> (handler \<times> jsstring option) option" where
  "dispatch m path = dispatch_in routes m path"

record request =
  req_method :: http_method
  req_path :: "jsstring list"
  req_query :: query_params
  req_body_value :: json

text \<open>
  Serving one request at time \<open>now\<close>: the response, the store afterwards and the events.
  Express decodes a route parameter before the route runs and answers 400 when that fails.
\<close>

definition with_param ::
  "platform \<Rightarrow> jsstring option \<Rightarrow> store
     \<Rightarrow> (jsstring \<Rightarrow> response \<times> store \<times> event list) \<Rightarrow> response \<times> store \<times> event list" where
  "with_param P raw st run =
     (case raw of
        None \<Rightarrow> (Failure BadRequest, st, [])
      | Some s \<Rightarrow>
          (case decodeURIComponent P s of
             None \<Rightarrow> (Failure BadRequest, st, [])
           | Some string_value \<Rightarrow> run string_value))"

definition serve :: "platform \<Rightarrow> nat \<Rightarrow> request \<Rightarrow> store \<Rightarrow> response \<times> store \<times> event list" where
  "serve P now req st =
     (case dispatch (req_method req) (req_path req) of
        None \<Rightarrow> (Failure NoRoute, st, [])
      | Some (H_create, raw) \<Rightarrow> post_strings P now (req_body_value req) st
      | Some (H_get, raw) \<Rightarrow>
          with_param P raw st
            (\<lambda>string_value. case get_string P string_value st of (r, ev) \<Rightarrow> (r, st, ev))
      | Some (H_list, raw) \<Rightarrow>
          (case get_strings P (req_query req) st of (r, ev) \<Rightarrow> (r, st, ev))
      | Some (H_natural_language, raw) \<Rightarrow>
          (case natural_language P (req_query req) st of (r, ev) \<Rightarrow> (r, st, ev))
      | Some (H_delete, raw) \<Rightarrow>
          with_param P raw st (\<lambda>string_value. delete_string P string_value st)
      | Some (H_health, raw) \<Rightarrow> (Healthy, st, []))"

section \<open>Requests in flight together\<close>

text \<open>
  Node runs the code of a route between two \<open>await\<close>s without interruption, and the store
  executes one operation at a time; so requests in flight interleave at the store's
  operations. A create request is waiting for \<open>findById\<close>, waiting for the insert, or
  done. A schedule names, step by step, the request whose pending operation the store
  executes next.
\<close>

datatype create_state = AwaitFind nat json | AwaitSave doc | Done response

definition create_step :: "platform \<Rightarrow> create_state \<Rightarrow> store \<Rightarrow> create_state \<times> store" where
  "create_step P c st =
     (case c of
        AwaitFind now body_value \<Rightarrow>
          (case create_check P now body_value st of
             Inl (r, ev) \<Rightarrow> (Done r, st)
           | Inr (newString, ev) \<Rightarrow> (AwaitSave newString, st))
      | AwaitSave newString \<Rightarrow>
          (case create_save P newString st of (r, st', ev) \<Rightarrow> (Done r, st'))
      | Done r \<Rightarrow> (Done r, st))"

fun run_schedule ::
  "platform \<Rightarrow> nat list \<Rightarrow> create_state list \<Rightarrow> store \<Rightarrow> create_state list \<times> store" where
  "run_schedule P [] cs st = (cs, st)"
| "run_schedule P (i # sched) cs st =
     (if i < length cs
      then (case create_step P (cs ! i) st of (c', st') \<Rightarrow> run_schedule P sched (cs[i := c']) st')
      else run_schedule P sched cs st)"

text \<open>
  Counting: the requests that were answered with a created record of value \<open>v\<close>, and the
  records of value \<open>v\<close> in a store.
\<close>

definition created_for :: "jsstring \<Rightarrow> create_state \<Rightarrow> bool" where
  "created_for v c = (case c of Done (Created d) \<Rightarrow> doc_value d = v | _ \<Rightarrow> False)"

definition creates_succeeded :: "jsstring \<Rightarrow> create_state list \<Rightarrow> nat" where
  "creates_succeeded v cs = length (filter (created_for v) cs)"

definition records_of :: "jsstring \<Rightarrow> store \<Rightarrow> nat" where
  "records_of v st = length (filter (\<lambda>d. doc_value d = v) st)"

section \<open>The specification's reading of an integer field\<close>

text \<open>
  Following the specification's words ("integer fields must parse as integers"): the text
  as a whole is an integer numeral, an optional sign and then decimal digits only, at
  least one.
\<close>

definition integer_text :: "jsstring \<Rightarrow> bool" where
  "integer_text s =
     (let t = (if prefix (ascii ''-'') s \<or> prefix (ascii ''+'') s then drop 1 s else s)
      in t \<noteq> [] \<and> list_all is_digit t)"

section \<open>The store's invariant\<close>

text \<open>
  What holds of every store the routes produce from the empty collection: each document's
  \<open>_id\<close> is the digest of its value, and no two documents have the same value.
\<close>

definition store_ok :: "platform \<Rightarrow> store \<Rightarrow> bool" where
  "store_ok P st \<longleftrightarrow>
     list_all (\<lambda>d. doc_id d = sha256_hex P (doc_value d)) st \<and> distinct (map doc_value st)"

text \<open>The stores a sequence of requests reaches from the empty collection.\<close>

inductive reachable :: "platform \<Rightarrow> store \<Rightarrow> bool" for P :: platform where
  reachable_empty: "reachable P []"
| reachable_serve: "reachable P st \<Longrightarrow> serve P now req st = (r, st', ev) \<Longrightarrow> reachable P st'"

text \<open>A concrete document for evaluation: what a create of "racecar" at time \<open>t\<close> stores.\<close>

definition racecar_doc :: "nat \<Rightarrow> doc" where
  "racecar_doc t =
     \<lparr> doc_id = ascii ''racecar'', doc_value = ascii ''racecar'',
       doc_properties = computeProperties basic_platform (ascii ''racecar''), created_at = t \<rparr>"

section \<open>Properties of the analyzer\<close>

lemma keys_obj_set: "map fst (obj_set m k v) = set_add (map fst m) k"
  by (induction m) (force simp: set_add_def)+

lemma keys_char_freq_loop: "map fst (char_freq_loop m cs) = foldl set_add (map fst m) cs"
  by (induction cs arbitrary: m) (simp_all add: keys_obj_set)

lemma sum_obj_set:
  "sum_list (map snd (obj_set m k (Suc (or_zero (obj_get m k))))) = Suc (sum_list (map snd m))"
  by (induction m) (auto simp: or_zero_def)

lemma sum_char_freq_loop:
  "sum_list (map snd (char_freq_loop m cs)) = sum_list (map snd m) + length cs"
  by (induction cs arbitrary: m) (simp_all add: sum_obj_set)

lemma foldl_set_add:
  "distinct xs \<Longrightarrow>
     distinct (foldl set_add xs ys) \<and> set (foldl set_add xs ys) = set xs \<union> set ys"
  by (induction ys arbitrary: xs) (auto simp: set_add_def)

lemma new_Set_card: "length (new_Set xs) = card (set xs)"
proof -
  have "distinct (new_Set xs)" and "set (new_Set xs) = set xs"
    using foldl_set_add [of "[]" xs] by (simp_all add: new_Set_def)
  then show ?thesis
    by (metis distinct_card)
qed

lemma join_rev_split: "join_empty (rev (split_units s)) = rev s"
  by (induction s) (simp_all add: join_empty_def split_units_def)

text \<open>The fields of the result, one by one.\<close>

lemma length_is_code_units: "length_p (computeProperties P s) = length s"
  by (simp add: computeProperties_def Let_def)

lemma unique_characters_card:
  "unique_characters (computeProperties P s) = card (set (string_iterator s))"
  by (simp add: computeProperties_def Let_def new_Set_card)

lemma frequency_map_keys:
  "distinct (object_keys (character_frequency_map (computeProperties P s)))
   \<and> set (object_keys (character_frequency_map (computeProperties P s))) = set (string_iterator s)"
  using foldl_set_add [of "[]" "string_iterator s"]
  by (simp add: computeProperties_def Let_def object_keys_def keys_char_freq_loop)

lemma is_palindrome_units:
  "is_palindrome (computeProperties P s) \<longleftrightarrow> normalized P s = rev (normalized P s)"
  by (simp add: computeProperties_def Let_def join_rev_split)

lemma sha256_hash_computeProperties: "sha256_hash (computeProperties P s) = sha256_hex P s"
  by (simp add: computeProperties_def Let_def)

text \<open>
  The iterator never yields more elements than the string has code units, and exactly as
  many when no leading surrogate is followed by a trailing one.
\<close>

lemma string_iterator_length_le: "length (string_iterator s) \<le> length s"
  by (induction s rule: string_iterator.induct) auto

lemma string_iterator_no_surrogates:
  "list_all (\<lambda>u. \<not> is_lead u) s \<Longrightarrow> string_iterator s = split_units s"
  by (induction s rule: string_iterator.induct) (auto simp: split_units_def)

text \<open>
  C9. For every string, the number of keys of the frequency map is the value of
  \<open>unique_characters\<close>, and the counts of the map add up to the number of code points of
  the string.
\<close>

theorem frequency_map_totals:
  "length (object_keys (character_frequency_map (computeProperties P s)))
     = unique_characters (computeProperties P s)
   \<and> sum_list (map snd (character_frequency_map (computeProperties P s)))
     = length (code_points s)"
  by (simp add: computeProperties_def Let_def object_keys_def keys_char_freq_loop
      sum_char_freq_loop new_Set_def code_points_def)

text \<open>
  C1. The string of the single code point U+1F600 (the surrogate pair D83D DE00): the
  analyzer reports length 2, the number of code units, while the string has one code
  point, \<open>unique_characters\<close> is 1 and the frequency map has the one key with count 1.
  So \<open>length\<close> is not counted over the code-point sequence that the other two fields use.
\<close>

theorem surrogate_pair_length:
  "length_p (computeProperties P [0xD83D, 0xDE00]) = 2
   \<and> code_points [0xD83D, 0xDE00] = [0x1F600]
   \<and> unique_characters (computeProperties P [0xD83D, 0xDE00]) = 1
   \<and> character_frequency_map (computeProperties P [0xD83D, 0xDE00]) = [([0xD83D, 0xDE00], 1)]"
  by (simp add: computeProperties_def Let_def code_points_def code_point_def is_lead_def
      is_trail_def new_Set_def set_add_def or_zero_def)

text \<open>
  C2. The same string, on every platform whose \<open>toLowerCase\<close> leaves it as it is, is
  reported as no palindrome, although its normalization is a single code point and so
  equal to its own reversal as a code-point sequence: the analyzer reverses code units,
  which turns the pair D83D DE00 into DE00 D83D.
\<close>

theorem surrogate_pair_not_palindrome:
  assumes "toLowerCase P [0xD83D, 0xDE00] = [0xD83D, 0xDE00]"
  shows "is_palindrome (computeProperties P [0xD83D, 0xDE00]) = False
         \<and> normalized P [0xD83D, 0xDE00] = [0xD83D, 0xDE00]
         \<and> code_points (normalized P [0xD83D, 0xDE00])
             = rev (code_points (normalized P [0xD83D, 0xDE00]))"
  using assms
  by (simp add: is_palindrome_units normalized_def is_space_def code_points_def is_lead_def
      is_trail_def)

theorem surrogate_pair_not_palindrome_witness:
  "toLowerCase basic_platform [0xD83D, 0xDE00] = [0xD83D, 0xDE00]
   \<and> is_palindrome (computeProperties basic_platform [0xD83D, 0xDE00]) = False"
proof -
  have l: "toLowerCase basic_platform [0xD83D, 0xDE00] = [0xD83D, 0xDE00]"
    by (simp add: basic_platform_def lower_unit_def)
  show ?thesis
    using l surrogate_pair_not_palindrome [OF l] by blast
qed

text \<open>
  Where no leading surrogate occurs, code units and code points are the same sequence and
  the two fields are as if computed over code points.
\<close>

lemma code_points_no_surrogates:
  "list_all (\<lambda>u. \<not> is_lead u) s \<Longrightarrow> code_points s = map unat s"
  by (simp add: code_points_def string_iterator_no_surrogates split_units_def code_point_def
      comp_def)

lemma length_no_surrogates:
  "list_all (\<lambda>u. \<not> is_lead u) s \<Longrightarrow> length_p (computeProperties P s) = length (code_points s)"
  by (simp add: length_is_code_units code_points_no_surrogates)

lemma palindrome_no_surrogates:
  assumes "list_all (\<lambda>u. \<not> is_lead u) (normalized P s)"
  shows "is_palindrome (computeProperties P s)
           \<longleftrightarrow> code_points (normalized P s) = rev (code_points (normalized P s))"
proof -
  have "inj (unat :: code_unit \<Rightarrow> nat)"
    by (simp add: inj_def word_unat_eq_iff)
  then have "map unat xs = map unat (rev xs) \<longleftrightarrow> xs = rev xs" for xs :: jsstring
    by (rule inj_map_eq_map)
  then show ?thesis
    using assms by (simp add: is_palindrome_units code_points_no_surrogates rev_map)
qed

text \<open>The empty string and every string of whitespace only are palindromes.\<close>

lemma palindrome_blank:
  "list_all is_space (toLowerCase P s) \<Longrightarrow> is_palindrome (computeProperties P s)"
  by (simp add: is_palindrome_units normalized_def list_all_iff filter_empty_conv [THEN iffD2])

section \<open>Properties of the store\<close>

lemma findById_None: "findById st i = None \<longleftrightarrow> i \<notin> set (map doc_id st)"
  by (auto simp: findById_def find_None_iff)

lemma findOne_value_None: "findOne_value st v = None \<longleftrightarrow> v \<notin> set (map doc_value st)"
  by (auto simp: findOne_value_def find_None_iff)

lemma store_ok_id_taken:
  "store_ok P st \<Longrightarrow> v \<in> set (map doc_value st) \<Longrightarrow> sha256_hex P v \<in> set (map doc_id st)"
  by (force simp: store_ok_def list_all_iff)

lemma distinct_one_record:
  "distinct (map doc_value st) \<Longrightarrow> v \<in> set (map doc_value st)
     \<Longrightarrow> length (filter (\<lambda>d. doc_value d = v) st) = 1"
proof (induction st)
  case Nil
  then show ?case by simp
next
  case (Cons d st)
  show ?case
  proof (cases "doc_value d = v")
    case True
    with Cons.prems have "v \<notin> doc_value ` set st"
      by auto
    then have "filter (\<lambda>d. doc_value d = v) st = []"
      by (auto simp: filter_empty_conv)
    with True show ?thesis by simp
  next
    case False
    with Cons show ?thesis by auto
  qed
qed

lemma post_strings_existing:
  assumes "store_ok P st" and "v \<in> set (map doc_value st)"
  shows "post_strings P now (JString v) st
           = (Failure Conflict, st, [FindById (sha256_hex P v)])"
proof -
  have "findById st (sha256_hex P v) \<noteq> None"
    using store_ok_id_taken [OF assms] by (simp add: findById_None)
  then show ?thesis
    by (auto simp: post_strings_def create_check_def Let_def sha256_hash_computeProperties)
qed

lemma post_strings_created:
  assumes "post_strings P now (JString v) st = (Created d, st', ev)"
  shows "st' = st @ [d] \<and> doc_value d = v \<and> doc_id d = sha256_hex P v
         \<and> v \<notin> set (map doc_value st)"
  using assms
  by (auto simp: post_strings_def create_check_def create_save_def save_def Let_def
      sha256_hash_computeProperties split: option.splits if_splits)

lemma store_ok_append:
  "store_ok P st \<Longrightarrow> doc_id d = sha256_hex P (doc_value d) \<Longrightarrow> doc_value d \<notin> set (map doc_value st)
     \<Longrightarrow> store_ok P (st @ [d])"
  by (auto simp: store_ok_def)

lemma remove_first_subset: "set (remove_first p xs) \<subseteq> set xs"
  by (induction xs) auto

lemma remove_first_distinct: "distinct (map f xs) \<Longrightarrow> distinct (map f (remove_first p xs))"
proof (induction xs)
  case Nil then show ?case by simp
next
  case (Cons x xs)
  then show ?case using remove_first_subset [of p xs] by auto
qed

lemma store_ok_remove_first: "store_ok P st \<Longrightarrow> store_ok P (remove_first p st)"
  using remove_first_subset [of p st]
  by (auto simp: store_ok_def list_all_iff remove_first_distinct)

lemma post_strings_store_ok:
  assumes "store_ok P st" and "post_strings P now b st = (r, st', ev)"
  shows "store_ok P st'"
proof (cases b)
  case (JString v)
  show ?thesis
  proof (cases "save P st \<lparr>doc_id = sha256_hex P v, doc_value = v, doc_properties = computeProperties P v, created_at = now\<rparr>")
    case None
    with assms JString show ?thesis
      by (auto simp: post_strings_def create_check_def create_save_def Let_def
        sha256_hash_computeProperties split: option.splits)
  next
    case (Some s)
    then have "s = st @ [\<lparr>doc_id = sha256_hex P v, doc_value = v, doc_properties = computeProperties P v, created_at = now\<rparr>]"
       and "v \<notin> set (map doc_value st)"
      by (auto simp: save_def split: if_splits)
    with assms JString Some show ?thesis
      by (auto simp: post_strings_def create_check_def create_save_def Let_def
        sha256_hash_computeProperties  split: option.splits intro!: store_ok_append)
  qed
qed (use assms in \<open>auto simp: post_strings_def create_check_def\<close>)

lemma serve_store_ok:
  assumes "store_ok P st" and "serve P now req st = (r, st', ev)"
  shows "store_ok P st'"
  using assms
  by (auto simp: serve_def with_param_def delete_string_def findOneAndDelete_def
      store_ok_remove_first post_strings_store_ok
      split: option.splits handler.splits prod.splits)

lemma reachable_store_ok: "reachable P st \<Longrightarrow> store_ok P st"
proof (induction rule: reachable.induct)
  case reachable_empty
  show ?case by (simp add: store_ok_def)
next
  case (reachable_serve st now req r st' ev)
  then show ?case by (simp add: serve_store_ok)
qed

text \<open>
  C3. In a store that satisfies the invariant (every store the routes reach does, see
  \<open>reachable_store_ok\<close>), a create of a value that has a record fails with Conflict and
  leaves the store as it is, with exactly one record of the value; and after a create
  that succeeded, a second create of the same value fails with Conflict, the store still
  holding exactly one record of the value.
\<close>

theorem create_existing_value_conflict:
  assumes "store_ok P st"
  shows "(v \<in> set (map doc_value st) \<longrightarrow>
            post_strings P now (JString v) st
              = (Failure Conflict, st, [FindById (sha256_hex P v)])
            \<and> length (filter (\<lambda>d. doc_value d = v) st) = 1)
         \<and> (post_strings P t1 (JString v) st = (Created d, st1, ev) \<longrightarrow>
            post_strings P t2 (JString v) st1
              = (Failure Conflict, st1, [FindById (sha256_hex P v)])
            \<and> length (filter (\<lambda>d. doc_value d = v) st1) = 1)"
proof (intro conjI impI)
  assume v: "v \<in> set (map doc_value st)"
  show "post_strings P now (JString v) st = (Failure Conflict, st, [FindById (sha256_hex P v)])"
    using assms v by (rule post_strings_existing)
  show "length (filter (\<lambda>d. doc_value d = v) st) = 1"
    using assms v by (simp add: store_ok_def distinct_one_record)
next
  assume c: "post_strings P t1 (JString v) st = (Created d, st1, ev)"
  have ok: "store_ok P st1"
    using assms c by (rule post_strings_store_ok)
  have v: "v \<in> set (map doc_value st1)"
    using post_strings_created [OF c] by simp
  show "post_strings P t2 (JString v) st1 = (Failure Conflict, st1, [FindById (sha256_hex P v)])"
    using ok v by (rule post_strings_existing)
  show "length (filter (\<lambda>d. doc_value d = v) st1) = 1"
    using ok v by (simp add: store_ok_def distinct_one_record)
qed

lemma post_racecar_empty:
  "post_strings basic_platform t (JString (ascii ''racecar'')) []
     = (Created (racecar_doc t), [racecar_doc t],
        [FindById (ascii ''racecar''), Save (racecar_doc t)])"
  by (simp add: post_strings_def create_check_def create_save_def save_def findById_def
      Let_def sha256_hash_computeProperties basic_platform_def ascii_def racecar_doc_def)

theorem create_existing_value_conflict_witness:
  "store_ok basic_platform []
   \<and> post_strings basic_platform 1 (JString (ascii ''racecar'')) []
       = (Created (racecar_doc 1), [racecar_doc 1],
          [FindById (ascii ''racecar''), Save (racecar_doc 1)])
   \<and> store_ok basic_platform [racecar_doc 1]
   \<and> ascii ''racecar'' \<in> set (map doc_value [racecar_doc 1])
   \<and> post_strings basic_platform 2 (JString (ascii ''racecar'')) [racecar_doc 1]
       = (Failure Conflict, [racecar_doc 1], [FindById (ascii ''racecar'')])
   \<and> length (filter (\<lambda>d. doc_value d = ascii ''racecar'') [racecar_doc 1]) = 1"
proof -
  have ok: "store_ok basic_platform []"
    by (simp add: store_ok_def)
  have ok1: "store_ok basic_platform [racecar_doc 1]"
    by (simp add: store_ok_def racecar_doc_def basic_platform_def)
  have v: "ascii ''racecar'' \<in> set (map doc_value [racecar_doc 1])"
    by (simp add: racecar_doc_def)
  note first = post_racecar_empty [of 1]
  note twice = create_existing_value_conflict [OF ok, of "ascii ''racecar''" _ 1 "racecar_doc 1"
      "[racecar_doc 1]" "[FindById (ascii ''racecar''), Save (racecar_doc 1)]" 2]
  note again = create_existing_value_conflict [OF ok1, of "ascii ''racecar''" 2]
  show ?thesis
    using ok ok1 v first twice again by (simp add: basic_platform_def)
qed

section \<open>Properties of the routing\<close>

lemma path_matches_Nil: "path_matches pat [] \<longleftrightarrow> pat = []"
  by (simp add: path_matches_def)

lemma natural_language_unreachable: "dispatch m path \<noteq> Some (H_natural_language, x)"
  by (auto simp: dispatch_def routes_def path_matches_def list_all2_Cons1 segment_matches_def
      split: if_splits)

lemma dispatch_filter_path:
  "dispatch GET [ascii ''strings'', ascii ''filter-by-natural-language'']
     = Some (H_get, Some (ascii ''filter-by-natural-language''))"
  by (simp add: dispatch_def routes_def path_matches_def segment_matches_def)

lemma decode_filter_path:
  "decodeURIComponent P (ascii ''filter-by-natural-language'') = Some (ascii ''filter-by-natural-language'')"
  by (simp add: decodeURIComponent_def ascii_def)

lemma serve_no_interpret: "Interpret t \<notin> set (snd (snd (serve P now req st)))"
proof (cases "dispatch (req_method req) (req_path req)")
  case None
  then show ?thesis by (simp add: serve_def)
next
  case (Some hp)
  obtain h raw where hp: "hp = (h, raw)" by (cases hp)
  have "h \<noteq> H_natural_language"
    using Some hp natural_language_unreachable by auto
  with Some hp show ?thesis
    by (cases h)
       (auto simp: serve_def with_param_def post_strings_def create_check_def create_save_def
          get_string_def delete_string_def get_strings_def findOneAndDelete_def Let_def
          split: option.splits json.splits sum.splits prod.splits)
qed

text \<open>
  C4. A GET of \<open>/strings/filter-by-natural-language\<close> is dispatched to the route
  \<open>/strings/:string_value\<close>, registered earlier, with the value
  "filter-by-natural-language": whatever the query text and body, the answer is that of
  the lookup by value, NotFound exactly when no record has that literal value. No request
  at all is dispatched to the natural-language route, and no request makes the service
  call \<open>parseNaturalLanguage\<close>.
\<close>

theorem natural_language_route_shadowed:
  "dispatch GET [ascii ''strings'', ascii ''filter-by-natural-language'']
     = Some (H_get, Some (ascii ''filter-by-natural-language''))
   \<and> serve P now \<lparr> req_method = GET,
                    req_path = [ascii ''strings'', ascii ''filter-by-natural-language''],
                    req_query = q, req_body_value = b \<rparr> st
       = ((case findOne_value st (ascii ''filter-by-natural-language'') of
             None \<Rightarrow> Failure NotFound | Some stringDoc \<Rightarrow> Found stringDoc),
          st, [FindOne (ascii ''filter-by-natural-language'')])
   \<and> ((fst (serve P now \<lparr> req_method = GET,
                    req_path = [ascii ''strings'', ascii ''filter-by-natural-language''],
                    req_query = q, req_body_value = b \<rparr> st) = Failure NotFound)
        = (ascii ''filter-by-natural-language'' \<notin> set (map doc_value st)))
   \<and> (\<forall>m path x. dispatch m path \<noteq> Some (H_natural_language, x))
   \<and> (\<forall>req t. Interpret t \<notin> set (snd (snd (serve P now req st))))"
proof -
  have s: "serve P now \<lparr> req_method = GET,
                    req_path = [ascii ''strings'', ascii ''filter-by-natural-language''],
                    req_query = q, req_body_value = b \<rparr> st
       = ((case findOne_value st (ascii ''filter-by-natural-language'') of
             None \<Rightarrow> Failure NotFound | Some stringDoc \<Rightarrow> Found stringDoc),
          st, [FindOne (ascii ''filter-by-natural-language'')])"
    by (simp add: serve_def dispatch_filter_path with_param_def decode_filter_path
        get_string_def split: option.splits)
  have n: "(fst (serve P now \<lparr> req_method = GET,
                    req_path = [ascii ''strings'', ascii ''filter-by-natural-language''],
                    req_query = q, req_body_value = b \<rparr> st) = Failure NotFound)
        = (ascii ''filter-by-natural-language'' \<notin> set (map doc_value st))"
    unfolding s using findOne_value_None [of st "ascii ''filter-by-natural-language''"]
    by (auto split: option.splits)
  show ?thesis
    using s n dispatch_filter_path natural_language_unreachable serve_no_interpret by blast
qed

section \<open>Two creates in flight\<close>

text \<open>
  C5. Two creates of one value that has no record yet, both answered by \<open>findById\<close>
  before either inserts (the schedule 0, 1, 0, 1): the first insert succeeds, the second
  is refused by the unique key, and the second request is answered InternalError
  (status 500), not Conflict. The check and the insert are two operations of the store,
  not one atomic admission.
\<close>

theorem racing_creates_internal_error:
  assumes "sha256_hex P v \<notin> set (map doc_id st)"
    and "v \<notin> set (map doc_value st)"
    and "accepts P \<lparr> doc_id = sha256_hex P v, doc_value = v,
                     doc_properties = computeProperties P v, created_at = t1 \<rparr>"
  shows "run_schedule P [0, 1, 0, 1]
           [AwaitFind t1 (JString v), AwaitFind t2 (JString v)] st
         = ([Done (Created \<lparr> doc_id = sha256_hex P v, doc_value = v,
                              doc_properties = computeProperties P v, created_at = t1 \<rparr>),
             Done (Failure InternalError)],
            st @ [\<lparr> doc_id = sha256_hex P v, doc_value = v,
                     doc_properties = computeProperties P v, created_at = t1 \<rparr>])"
proof -
  have f: "findById st (sha256_hex P v) = None"
    using assms(1) by (simp add: findById_None)
  show ?thesis
    using assms
    by (simp add: create_step_def create_check_def create_save_def save_def f Let_def
        sha256_hash_computeProperties)
qed

theorem racing_creates_internal_error_witness:
  "sha256_hex basic_platform (ascii ''racecar'') \<notin> set (map doc_id [])
   \<and> ascii ''racecar'' \<notin> set (map doc_value [])
   \<and> accepts basic_platform (racecar_doc 1)
   \<and> run_schedule basic_platform [0, 1, 0, 1]
        [AwaitFind 1 (JString (ascii ''racecar'')), AwaitFind 2 (JString (ascii ''racecar''))] []
      = ([Done (Created (racecar_doc 1)), Done (Failure InternalError)], [racecar_doc 1])"
proof -
  have d: "\<lparr> doc_id = sha256_hex basic_platform (ascii ''racecar''),
             doc_value = ascii ''racecar'',
             doc_properties = computeProperties basic_platform (ascii ''racecar''),
             created_at = 1 \<rparr> = racecar_doc 1"
    by (simp add: racecar_doc_def basic_platform_def)
  have h1: "sha256_hex basic_platform (ascii ''racecar'') \<notin> set (map doc_id [])"
    by simp
  have h2: "ascii ''racecar'' \<notin> set (map doc_value [])"
    by simp
  have a: "accepts basic_platform (racecar_doc 1)"
    by (simp add: basic_platform_def racecar_doc_def ascii_def)
  have r: "run_schedule basic_platform [0, 1, 0, 1]
        [AwaitFind 1 (JString (ascii ''racecar'')), AwaitFind 2 (JString (ascii ''racecar''))] []
      = ([Done (Created (racecar_doc 1)), Done (Failure InternalError)], [racecar_doc 1])"
    using racing_creates_internal_error [OF h1 h2 a [folded d], of 2]
    by (simp only: d append_Nil)
  show ?thesis
    using h1 h2 a r by blast
qed

text \<open>Served one after the other (the schedule 0, 0, 1, 1), the second is answered Conflict.\<close>

lemma sequential_creates:
  assumes "sha256_hex P v \<notin> set (map doc_id st)"
    and "v \<notin> set (map doc_value st)"
    and "accepts P \<lparr> doc_id = sha256_hex P v, doc_value = v,
                     doc_properties = computeProperties P v, created_at = t1 \<rparr>"
  shows "fst (run_schedule P [0, 0, 1, 1]
           [AwaitFind t1 (JString v), AwaitFind t2 (JString v)] st)
         = [Done (Created \<lparr> doc_id = sha256_hex P v, doc_value = v,
                              doc_properties = computeProperties P v, created_at = t1 \<rparr>),
             Done (Failure Conflict)]"
proof -
  have f: "findById st (sha256_hex P v) = None"
    using assms(1) by (simp add: findById_None)
  have g: "findById (st @ [\<lparr> doc_id = sha256_hex P v, doc_value = v,
                     doc_properties = computeProperties P v, created_at = t1 \<rparr>]) (sha256_hex P v) \<noteq> None"
    by (simp add: findById_None)
  show ?thesis
    using assms g
    by (auto simp add: create_step_def create_check_def create_save_def save_def f Let_def
        sha256_hash_computeProperties)
qed

text \<open>
  Whatever the schedule, at most one of two creates of a value is answered with a created
  record, in a store whose values are distinct.
\<close>

lemma count_update:
  "i < length cs \<Longrightarrow>
     length (filter p (cs[i := c])) + (if p (cs ! i) then 1 else 0)
       = length (filter p cs) + (if p c then 1 else 0)"
proof (induction cs arbitrary: i)
  case Nil
  then show ?case by simp
next
  case (Cons x xs)
  then show ?case by (cases i) auto
qed

lemma create_check_not_created:
  "create_check P now b st = Inl (r, ev) \<Longrightarrow> \<not> created_for v (Done r)"
  by (auto simp: create_check_def created_for_def Let_def split: json.splits option.splits)

lemma create_step_counts:
  assumes "distinct (map doc_value st)" and "create_step P c st = (c', st')"
  shows "distinct (map doc_value st')
         \<and> (if created_for v c' then 1 else 0) + records_of v st
           = (if created_for v c then 1 else (0::nat)) + records_of v st'"
proof (cases c)
  case (AwaitFind now b)
  have "\<not> created_for v (AwaitFind now b)" and "\<not> created_for v (AwaitSave d)" for d
    by (simp_all add: created_for_def)
  with assms AwaitFind show ?thesis
    by (auto simp: create_step_def split: sum.splits prod.splits
        dest: create_check_not_created [where v = v])
next
  case (AwaitSave d)
  with assms show ?thesis
    by (auto simp: create_step_def create_save_def save_def created_for_def records_of_def
        split: option.splits if_splits)
next
  case (Done r)
  with assms show ?thesis
    by (auto simp: create_step_def)
qed

lemma run_schedule_counts:
  assumes "distinct (map doc_value st)" and "run_schedule P sched cs st = (cs', st')"
  shows "distinct (map doc_value st')
         \<and> creates_succeeded v cs' + records_of v st = creates_succeeded v cs + records_of v st'"
  using assms
proof (induction sched arbitrary: cs st)
  case Nil
  then show ?case by simp
next
  case (Cons i sched)
  show ?case
  proof (cases "i < length cs")
    case False
    with Cons show ?thesis by simp
  next
    case True
    obtain c1 st1 where step: "create_step P (cs ! i) st = (c1, st1)"
      by (cases "create_step P (cs ! i) st")
    with True Cons.prems have rest: "run_schedule P sched (cs[i := c1]) st1 = (cs', st')"
      by simp
    note s = create_step_counts [OF Cons.prems(1) step, of v]
    note ih = Cons.IH [OF conjunct1 [OF s] rest]
    note u = count_update [OF True, of "created_for v" c1]
    show ?thesis
      using s ih u by (simp add: creates_succeeded_def split: if_splits)
  qed
qed

lemma records_of_distinct: "distinct (map doc_value st) \<Longrightarrow> records_of v st \<le> 1"
proof (induction st)
  case Nil
  then show ?case by (simp add: records_of_def)
next
  case (Cons d st)
  show ?case
  proof (cases "doc_value d = v")
    case True
    with Cons.prems have "v \<notin> doc_value ` set st" by auto
    then have "filter (\<lambda>d. doc_value d = v) st = []"
      by (auto simp: filter_empty_conv)
    with True show ?thesis by (simp add: records_of_def)
  next
    case False
    with Cons show ?thesis by (simp add: records_of_def)
  qed
qed

lemma at_most_one_create_succeeds:
  assumes "distinct (map doc_value st)"
    and "run_schedule P sched [AwaitFind t1 (JString v), AwaitFind t2 (JString v)] st = (cs', st')"
  shows "creates_succeeded v cs' \<le> 1"
proof -
  have "creates_succeeded v [AwaitFind t1 (JString v), AwaitFind t2 (JString v)] = 0"
    by (simp add: creates_succeeded_def created_for_def)
  with run_schedule_counts [OF assms, of v] records_of_distinct [of st' v]
  show ?thesis by simp
qed

section \<open>Properties of the interpreter\<close>

lemma parseNaturalLanguage_lowered:
  "toLowerCase P q = toLowerCase P' q' \<Longrightarrow> parseNaturalLanguage P q = parseNaturalLanguage P' q'"
  by (simp add: parseNaturalLanguage_def)

lemma basic_lower_ascii: "toLowerCase basic_platform s = map lower_unit s"
  by (simp add: basic_platform_def)

lemma example_single_word:
  "parseNaturalLanguage basic_platform (ascii ''all single word palindromic strings'')
     = no_filters\<lparr> f_word_count := Some (Num 1), f_is_palindrome := Some True \<rparr>"
  by code_simp

lemma example_longer:
  "parseNaturalLanguage basic_platform (ascii ''strings longer than 10 characters'')
     = no_filters\<lparr> f_min_length := Some (Num 11) \<rparr>"
  by code_simp

lemma example_xyz: "parseNaturalLanguage basic_platform (ascii ''xyz'') = no_filters"
  by code_simp

lemma parse_as_basic:
  "toLowerCase P q = q \<Longrightarrow> toLowerCase basic_platform q = q
     \<Longrightarrow> parseNaturalLanguage P q = parseNaturalLanguage basic_platform q"
  by (simp add: parseNaturalLanguage_def)

lemma basic_lower_single_word:
  "toLowerCase basic_platform (ascii ''all single word palindromic strings'')
     = ascii ''all single word palindromic strings''"
  by (simp add: basic_lower_ascii ascii_def lower_unit_def)

lemma basic_lower_longer:
  "toLowerCase basic_platform (ascii ''strings longer than 10 characters'')
     = ascii ''strings longer than 10 characters''"
  by (simp add: basic_lower_ascii ascii_def lower_unit_def)

lemma basic_lower_xyz: "toLowerCase basic_platform (ascii ''xyz'') = ascii ''xyz''"
  by (simp add: basic_lower_ascii ascii_def lower_unit_def)

lemma interpret_query_keys:
  "interpret_query P q
     = (if filters_keys (parseNaturalLanguage P q) = 0 then Inl UnparsableQuery
        else Inr (parseNaturalLanguage P q))"
  by (simp add: interpret_query_def Let_def)

lemma natural_language_unparsable:
  assumes "q \<noteq> []" and "interpret_query P q = Inl e"
  shows "natural_language P [(ascii ''query'', QStr q)] st = (Failure e, [Interpret (QStr q)])"
  using assms by (simp add: natural_language_def falsy_def)

text \<open>
  C6. The three examples, for every platform whose \<open>toLowerCase\<close> leaves the three
  (lowercase) texts as they are: "all single word palindromic strings" gives exactly
  \<open>word_count = 1\<close> and \<open>is_palindrome = true\<close>; "strings longer than 10 characters"
  gives exactly \<open>min_length = 11\<close>; "xyz" sets no field, and the interpreter, as the
  natural-language route runs it, fails with UnparsableQuery.
\<close>

theorem interpreter_examples:
  assumes "toLowerCase P (ascii ''all single word palindromic strings'')
             = ascii ''all single word palindromic strings''"
    and "toLowerCase P (ascii ''strings longer than 10 characters'')
             = ascii ''strings longer than 10 characters''"
    and "toLowerCase P (ascii ''xyz'') = ascii ''xyz''"
  shows "interpret_query P (ascii ''all single word palindromic strings'')
           = Inr (no_filters\<lparr> f_word_count := Some (Num 1), f_is_palindrome := Some True \<rparr>)
         \<and> interpret_query P (ascii ''strings longer than 10 characters'')
           = Inr (no_filters\<lparr> f_min_length := Some (Num 11) \<rparr>)
         \<and> filters_keys (parseNaturalLanguage P (ascii ''xyz'')) = 0
         \<and> interpret_query P (ascii ''xyz'') = Inl UnparsableQuery
         \<and> natural_language P [(ascii ''query'', QStr (ascii ''xyz''))] st
           = (Failure UnparsableQuery, [Interpret (QStr (ascii ''xyz''))])"
proof -
  have p1: "parseNaturalLanguage P (ascii ''all single word palindromic strings'')
     = no_filters\<lparr> f_word_count := Some (Num 1), f_is_palindrome := Some True \<rparr>"
    using parse_as_basic [OF assms(1) basic_lower_single_word]
    by (simp only: example_single_word)
  have p2: "parseNaturalLanguage P (ascii ''strings longer than 10 characters'')
     = no_filters\<lparr> f_min_length := Some (Num 11) \<rparr>"
    using parse_as_basic [OF assms(2) basic_lower_longer]
    by (simp only: example_longer)
  have p3: "parseNaturalLanguage P (ascii ''xyz'') = no_filters"
    using parse_as_basic [OF assms(3) basic_lower_xyz]
    by (simp only: example_xyz)
  have k1: "filters_keys (no_filters\<lparr> f_word_count := Some (Num 1), f_is_palindrome := Some True \<rparr>) = 2"
    by (simp add: filters_keys_def no_filters_def)
  have k2: "filters_keys (no_filters\<lparr> f_min_length := Some (Num 11) \<rparr>) = 1"
    by (simp add: filters_keys_def no_filters_def)
  have k3: "filters_keys no_filters = 0"
    by (simp add: filters_keys_def no_filters_def)
  have i1: "interpret_query P (ascii ''all single word palindromic strings'')
           = Inr (no_filters\<lparr> f_word_count := Some (Num 1), f_is_palindrome := Some True \<rparr>)"
    unfolding interpret_query_keys p1 k1 by simp
  have i2: "interpret_query P (ascii ''strings longer than 10 characters'')
           = Inr (no_filters\<lparr> f_min_length := Some (Num 11) \<rparr>)"
    unfolding interpret_query_keys p2 k2 by simp
  have i3: "interpret_query P (ascii ''xyz'') = Inl UnparsableQuery"
    unfolding interpret_query_keys p3 k3 by simp
  have z: "filters_keys (parseNaturalLanguage P (ascii ''xyz'')) = 0"
    unfolding p3 k3 by simp
  have nonempty: "ascii ''xyz'' \<noteq> []"
    by (simp add: ascii_def)
  note n = natural_language_unparsable [OF nonempty i3, of st]
  show ?thesis
    using i1 i2 i3 z n by blast
qed

theorem interpreter_examples_witness:
  "toLowerCase basic_platform (ascii ''all single word palindromic strings'')
      = ascii ''all single word palindromic strings''
   \<and> toLowerCase basic_platform (ascii ''strings longer than 10 characters'')
      = ascii ''strings longer than 10 characters''
   \<and> toLowerCase basic_platform (ascii ''xyz'') = ascii ''xyz''
   \<and> interpret_query basic_platform (ascii ''all single word palindromic strings'')
       = Inr (no_filters\<lparr> f_word_count := Some (Num 1), f_is_palindrome := Some True \<rparr>)
   \<and> interpret_query basic_platform (ascii ''strings longer than 10 characters'')
       = Inr (no_filters\<lparr> f_min_length := Some (Num 11) \<rparr>)
   \<and> interpret_query basic_platform (ascii ''xyz'') = Inl UnparsableQuery"
  using basic_lower_single_word basic_lower_longer basic_lower_xyz
    interpreter_examples [OF basic_lower_single_word basic_lower_longer basic_lower_xyz]
  by blast


lemma js_includes_sublist: "js_includes s t \<longleftrightarrow> sublist t s"
  by (induction s) (simp_all add: sublist_Cons_right)

text \<open>
  C7. For every text whose lowercasing contains "first vowel", the filter's
  \<open>contains_character\<close> is the constant "a", whatever the pattern of rule 6 matched
  on the same text.
\<close>

theorem first_vowel_overwrites:
  assumes "sublist (ascii ''first vowel'') (toLowerCase P q)"
  shows "f_contains_character (parseNaturalLanguage P q) = Some (ascii ''a'')"
  using assms by (simp add: parseNaturalLanguage_def Let_def js_includes_sublist)

text \<open>Without "first vowel" in the text, the field is what rule 6 stored, if it matched.\<close>

lemma first_vowel_absent:
  assumes "\<not> sublist (ascii ''first vowel'') (toLowerCase P q)"
  shows "f_contains_character (parseNaturalLanguage P q)
           = (case rx_search containsRe (toLowerCase P q) of None \<Rightarrow> None | Some g \<Rightarrow> g)"
  using assms
  by (simp add: parseNaturalLanguage_def Let_def js_includes_sublist no_filters_def
      split: option.splits)

theorem first_vowel_overwrites_witness:
  "sublist (ascii ''first vowel'')
     (toLowerCase basic_platform (ascii ''strings containing the letter z and the first vowel''))
   \<and> rx_search containsRe
       (toLowerCase basic_platform (ascii ''strings containing the letter z and the first vowel''))
       = Some (Some (ascii ''z''))
   \<and> f_contains_character
       (parseNaturalLanguage basic_platform
          (ascii ''strings containing the letter z and the first vowel''))
       = Some (ascii ''a'')"
proof -
  have i: "js_includes
     (toLowerCase basic_platform (ascii ''strings containing the letter z and the first vowel''))
     (ascii ''first vowel'')"
    by code_simp
  have s: "sublist (ascii ''first vowel'')
     (toLowerCase basic_platform (ascii ''strings containing the letter z and the first vowel''))"
    using i by (simp only: js_includes_sublist)
  have r: "rx_search containsRe
       (toLowerCase basic_platform (ascii ''strings containing the letter z and the first vowel''))
       = Some (Some (ascii ''z''))"
    by code_simp
  show ?thesis
    using s r first_vowel_overwrites [OF s] by blast
qed

text \<open>
  Each of the four expressions has its capture group in every match, so \<open>match[1]\<close> is
  never \<open>undefined\<close>.
\<close>

lemma group_of_Group: "list_all (\<lambda>m. fst m \<noteq> None) (rx_matches (Group r) s)"
  by (simp add: list_all_iff)

lemma group_of_Seq_right:
  assumes "\<And>t. list_all (\<lambda>m. fst m \<noteq> None) (rx_matches r2 t)"
  shows "list_all (\<lambda>m. fst m \<noteq> None) (rx_matches (Seq r1 r2) s)"
proof -
  have "fst m2 \<noteq> None" if "m2 \<in> set (rx_matches r2 t)" for m2 t
    using assms [of t] that by (auto simp: list_all_iff)
  then show ?thesis
    by (fastforce simp: list_all_iff split: option.splits)
qed

lemma group_of_Seq_left:
  assumes "\<And>t. list_all (\<lambda>m. fst m \<noteq> None) (rx_matches r1 t)"
  shows "list_all (\<lambda>m. fst m \<noteq> None) (rx_matches (Seq r1 r2) s)"
  using assms by (auto simp: list_all_iff split: option.splits)

lemma rx_search_Some:
  "rx_search r s = Some g \<Longrightarrow> \<exists>t. g \<in> fst ` set (rx_matches r t)"
proof (induction s)
  case Nil
  then show ?case by (auto split: list.splits intro!: exI [of _ "[]"])
next
  case (Cons c cs)
  show ?case
  proof (cases "rx_matches r (c # cs)")
    case Nil
    with Cons show ?thesis by simp
  next
    case (Cons m ms)
    with Cons.prems have "g = fst m" by simp
    with Cons show ?thesis by (intro exI [of _ "c # cs"]) simp
  qed
qed

lemma has_group:
  "list_all (\<lambda>m. fst m \<noteq> None) (rx_matches wordCountRe t)"
  "list_all (\<lambda>m. fst m \<noteq> None) (rx_matches longerRe t)"
  "list_all (\<lambda>m. fst m \<noteq> None) (rx_matches shorterRe t)"
  "list_all (\<lambda>m. fst m \<noteq> None) (rx_matches containsRe t)"
  unfolding wordCountRe_def longerRe_def shorterRe_def containsRe_def
  by (rule group_of_Seq_left group_of_Seq_right group_of_Group)+

lemma rx_search_group:
  assumes "r \<in> {wordCountRe, longerRe, shorterRe, containsRe}"
  shows "rx_search r s \<noteq> Some None"
proof
  assume "rx_search r s = Some None"
  then obtain t where t: "None \<in> fst ` set (rx_matches r t)"
    using rx_search_Some by blast
  have "list_all (\<lambda>m. fst m \<noteq> None) (rx_matches r t)"
    using assms has_group [of t] by auto
  with t show False
    by (auto simp: list_all_iff)
qed

section \<open>Properties of the list route\<close>

lemma and_then_Inl: "and_then (Inl e) f = Inl e"
  by (simp add: and_then_def)

lemma and_then_Inr: "and_then (Inr b) f = f b"
  by (simp add: and_then_def)

lemma apply_is_palindrome_Inr: "\<exists>b'. apply_is_palindrome p b = Inr b'"
  by (cases p) (simp_all add: apply_is_palindrome_def Let_def)

lemma apply_min_length_cases:
  "apply_min_length p b = Inl (InvalidFilterValue ''min_length'')
   \<and> (\<exists>v. p = Some v \<and> parseInt (to_string v) = NaN)
   \<or> (\<exists>b'. apply_min_length p b = Inr b') \<and> \<not> (\<exists>v. p = Some v \<and> parseInt (to_string v) = NaN)"
  by (cases p) (auto simp: apply_min_length_def Let_def isNaN_def)

lemma apply_max_length_cases:
  "apply_max_length p b = Inl (InvalidFilterValue ''max_length'')
   \<and> (\<exists>v. p = Some v \<and> parseInt (to_string v) = NaN)
   \<or> (\<exists>b'. apply_max_length p b = Inr b') \<and> \<not> (\<exists>v. p = Some v \<and> parseInt (to_string v) = NaN)"
  by (cases p) (auto simp: apply_max_length_def Let_def isNaN_def)

lemma apply_word_count_cases:
  "apply_word_count p b = Inl (InvalidFilterValue ''word_count'')
   \<and> (\<exists>v. p = Some v \<and> parseInt (to_string v) = NaN)
   \<or> (\<exists>b'. apply_word_count p b = Inr b') \<and> \<not> (\<exists>v. p = Some v \<and> parseInt (to_string v) = NaN)"
  by (cases p) (auto simp: apply_word_count_def Let_def isNaN_def)

lemma apply_contains_character_cases:
  "apply_contains_character p b = Inl (InvalidFilterValue ''contains_character'')
   \<and> (\<exists>v. p = Some v \<and> \<not> (\<exists>c. v = QStr c \<and> length c = 1))
   \<or> (\<exists>b'. apply_contains_character p b = Inr b')
     \<and> \<not> (\<exists>v. p = Some v \<and> \<not> (\<exists>c. v = QStr c \<and> length c = 1))"
proof (cases p)
  case None
  then show ?thesis by (simp add: apply_contains_character_def)
next
  case (Some v)
  then show ?thesis
    by (cases v) (auto simp: apply_contains_character_def)
qed

text \<open>
  The outcome of the five blocks together: the first ill-formed field, in the order of the
  source, decides the failure; with none, the query is built.
\<close>

lemma build_query_invalid:
  "(if (\<exists>v. obj_get q (ascii ''min_length'') = Some v \<and> parseInt (to_string v) = NaN)
    then build_query q = Inl (InvalidFilterValue ''min_length'')
    else if (\<exists>v. obj_get q (ascii ''max_length'') = Some v \<and> parseInt (to_string v) = NaN)
    then build_query q = Inl (InvalidFilterValue ''max_length'')
    else if (\<exists>v. obj_get q (ascii ''word_count'') = Some v \<and> parseInt (to_string v) = NaN)
    then build_query q = Inl (InvalidFilterValue ''word_count'')
    else if (\<exists>v. obj_get q (ascii ''contains_character'') = Some v
                 \<and> \<not> (\<exists>c. v = QStr c \<and> length c = 1))
    then build_query q = Inl (InvalidFilterValue ''contains_character'')
    else (\<exists>b. build_query q = Inr b))"
proof -
  obtain b0 where b0:
    "apply_is_palindrome (obj_get q (ascii ''is_palindrome'')) (no_query, no_filters) = Inr b0"
    using apply_is_palindrome_Inr by blast
  note unf = build_query_def b0 and_then_Inr and_then_Inl
  consider
    (bad1) "apply_min_length (obj_get q (ascii ''min_length'')) b0
              = Inl (InvalidFilterValue ''min_length'')"
           "\<exists>v. obj_get q (ascii ''min_length'') = Some v \<and> parseInt (to_string v) = NaN"
  | (ok1) b1 where "apply_min_length (obj_get q (ascii ''min_length'')) b0 = Inr b1"
           "\<not> (\<exists>v. obj_get q (ascii ''min_length'') = Some v \<and> parseInt (to_string v) = NaN)"
    using apply_min_length_cases [of "obj_get q (ascii ''min_length'')" b0] by blast
  then show ?thesis
  proof cases
    case bad1
    then show ?thesis by (simp only: unf if_True)
  next
    case ok1
    consider
      (bad2) "apply_max_length (obj_get q (ascii ''max_length'')) b1
                = Inl (InvalidFilterValue ''max_length'')"
             "\<exists>v. obj_get q (ascii ''max_length'') = Some v \<and> parseInt (to_string v) = NaN"
    | (ok2) b2 where "apply_max_length (obj_get q (ascii ''max_length'')) b1 = Inr b2"
             "\<not> (\<exists>v. obj_get q (ascii ''max_length'') = Some v \<and> parseInt (to_string v) = NaN)"
      using apply_max_length_cases [of "obj_get q (ascii ''max_length'')" b1] by blast
    then show ?thesis
    proof cases
      case bad2
      with ok1 show ?thesis by (simp only: unf if_True if_False)
    next
      case ok2
      consider
        (bad3) "apply_word_count (obj_get q (ascii ''word_count'')) b2
                  = Inl (InvalidFilterValue ''word_count'')"
               "\<exists>v. obj_get q (ascii ''word_count'') = Some v \<and> parseInt (to_string v) = NaN"
      | (ok3) b3 where "apply_word_count (obj_get q (ascii ''word_count'')) b2 = Inr b3"
               "\<not> (\<exists>v. obj_get q (ascii ''word_count'') = Some v \<and> parseInt (to_string v) = NaN)"
        using apply_word_count_cases [of "obj_get q (ascii ''word_count'')" b2] by blast
      then show ?thesis
      proof cases
        case bad3
        with ok1 ok2 show ?thesis by (simp only: unf if_True if_False)
      next
        case ok3
        consider
          (bad4) "apply_contains_character (obj_get q (ascii ''contains_character'')) b3
                    = Inl (InvalidFilterValue ''contains_character'')"
                 "\<exists>v. obj_get q (ascii ''contains_character'') = Some v
                      \<and> \<not> (\<exists>c. v = QStr c \<and> length c = 1)"
        | (ok4) b4 where
                 "apply_contains_character (obj_get q (ascii ''contains_character'')) b3 = Inr b4"
                 "\<not> (\<exists>v. obj_get q (ascii ''contains_character'') = Some v
                      \<and> \<not> (\<exists>c. v = QStr c \<and> length c = 1))"
          using apply_contains_character_cases [of "obj_get q (ascii ''contains_character'')" b3]
          by blast
        then show ?thesis
        proof cases
          case bad4
          with ok1 ok2 ok3 show ?thesis by (simp only: unf if_True if_False)
        next
          case ok4
          with ok1 ok2 ok3 show ?thesis by (simp only: unf if_True if_False) blast
        qed
      qed
    qed
  qed
qed


text \<open>
  What \<open>parseInt\<close> reads: every text that is an integer numeral as a whole is read as a
  number, and so is a text that only starts with one; the rest of such a text is ignored.
\<close>

lemma to_number_not_NaN: "to_number i \<noteq> NaN"
  by (simp add: to_number_def Let_def)

lemma digit_not_space: "is_digit d \<Longrightarrow> \<not> is_space d"
  by (auto simp: is_digit_def is_space_def word_le_nat_alt)

lemma digit_radix_10: "is_digit d \<Longrightarrow> radix_digit 10 d"
  by (auto simp: is_digit_def radix_digit_def digit_val_def word_le_nat_alt)

lemma digits_not_hex:
  "list_all is_digit t \<Longrightarrow> \<not> prefix (ascii ''0x'') t \<and> \<not> prefix (ascii ''0X'') t"
  by (auto simp: ascii_def prefix_def is_digit_def)

lemma parseInt_digits:
  assumes "t \<noteq> []" and "list_all is_digit t"
    and "\<not> prefix (ascii ''-'') t" and "\<not> prefix (ascii ''+'') t"
  shows "parseInt t \<noteq> NaN"
proof -
  obtain d t' where t: "t = d # t'" using assms(1) by (cases t) auto
  with assms(2) have d: "is_digit d" by simp
  have S: "dropWhile is_space t = t"
    using t d digit_not_space by simp
  have Z: "takeWhile (radix_digit 10) t \<noteq> []"
    using t d digit_radix_10 by simp
  show ?thesis
    using assms(3,4) digits_not_hex [OF assms(2)] Z
    by (simp add: parseInt_def Let_def S to_number_not_NaN)
qed


lemma parseInt_signed_digits:
  assumes "t \<noteq> []" and "list_all is_digit t" and "c = 0x2D \<or> c = 0x2B"
  shows "parseInt (c # t) \<noteq> NaN"
proof -
  obtain d t' where t: "t = d # t'" using assms(1) by (cases t) auto
  with assms(2) have d: "is_digit d" by simp
  have c: "\<not> is_space c"
    using assms(3) by (auto simp: is_space_def)
  have sign: "prefix (ascii ''-'') (c # t) \<or> prefix (ascii ''+'') (c # t)"
    using assms(3) by (auto simp: ascii_def)
  have Z: "takeWhile (radix_digit 10) t \<noteq> []"
    using t d digit_radix_10 by simp
  show ?thesis
    using sign digits_not_hex [OF assms(2)] Z c
    by (simp add: parseInt_def Let_def to_number_not_NaN)
qed

lemma integer_text_accepted: "integer_text s \<Longrightarrow> parseInt s \<noteq> NaN"
proof -
  assume a: "integer_text s"
  show ?thesis
  proof (cases "prefix (ascii ''-'') s \<or> prefix (ascii ''+'') s")
    case True
    then obtain c t where s: "s = c # t" and c: "c = 0x2D \<or> c = 0x2B"
      by (cases s) (auto simp: ascii_def)
    with a True have "t \<noteq> []" "list_all is_digit t"
      by (simp_all add: integer_text_def Let_def)
    then show ?thesis
      unfolding s using c by (rule parseInt_signed_digits)
  next
    case False
    with a have "s \<noteq> []" "list_all is_digit s"
      by (simp_all add: integer_text_def Let_def)
    then show ?thesis
      using False by (simp add: parseInt_digits)
  qed
qed


lemma integer_text_examples:
  "\<not> integer_text (ascii ''3.7'') \<and> \<not> integer_text (ascii ''12abc'')
   \<and> \<not> integer_text (ascii ''1e3'')"
  by code_simp






text \<open>The later blocks leave \<open>is_palindrome\<close> as the first block set it.\<close>

lemma apply_min_length_keeps:
  "apply_min_length p b = Inr b' \<Longrightarrow>
     f_is_palindrome (snd b') = f_is_palindrome (snd b)
     \<and> q_is_palindrome (fst b') = q_is_palindrome (fst b)"
  by (cases p) (auto simp: apply_min_length_def Let_def split: if_splits)

lemma apply_max_length_keeps:
  "apply_max_length p b = Inr b' \<Longrightarrow>
     f_is_palindrome (snd b') = f_is_palindrome (snd b)
     \<and> q_is_palindrome (fst b') = q_is_palindrome (fst b)"
  by (cases p) (auto simp: apply_max_length_def Let_def split: if_splits)

lemma apply_word_count_keeps:
  "apply_word_count p b = Inr b' \<Longrightarrow>
     f_is_palindrome (snd b') = f_is_palindrome (snd b)
     \<and> q_is_palindrome (fst b') = q_is_palindrome (fst b)"
  by (cases p) (auto simp: apply_word_count_def Let_def split: if_splits)

lemma apply_contains_character_keeps:
  "apply_contains_character p b = Inr b' \<Longrightarrow>
     f_is_palindrome (snd b') = f_is_palindrome (snd b)
     \<and> q_is_palindrome (fst b') = q_is_palindrome (fst b)"
  by (cases p)
     (auto simp: apply_contains_character_def split: if_splits option.splits qvalue.splits)

lemma and_then_Inr_iff:
  "and_then r f = Inr b' \<longleftrightarrow> (\<exists>b. r = Inr b \<and> f b = Inr b')"
  by (cases r) (simp_all add: and_then_def)

lemma build_query_is_palindrome:
  assumes "obj_get q (ascii ''is_palindrome'') = Some v" and "build_query q = Inr b"
  shows "f_is_palindrome (snd b) = Some (v = QStr (ascii ''true''))
         \<and> q_is_palindrome (fst b) = Some (v = QStr (ascii ''true''))"
proof -
  from assms(2) obtain b0 b1 b2 b3 where
    s0: "apply_is_palindrome (obj_get q (ascii ''is_palindrome'')) (no_query, no_filters) = Inr b0"
    and s1: "apply_min_length (obj_get q (ascii ''min_length'')) b0 = Inr b1"
    and s2: "apply_max_length (obj_get q (ascii ''max_length'')) b1 = Inr b2"
    and s3: "apply_word_count (obj_get q (ascii ''word_count'')) b2 = Inr b3"
    and s4: "apply_contains_character (obj_get q (ascii ''contains_character'')) b3 = Inr b"
    unfolding build_query_def and_then_Inr_iff by blast
  have "f_is_palindrome (snd b0) = Some (v = QStr (ascii ''true''))
        \<and> q_is_palindrome (fst b0) = Some (v = QStr (ascii ''true''))"
    using s0 assms(1) by (auto simp: apply_is_palindrome_def Let_def)
  then show ?thesis
    using apply_min_length_keeps [OF s1] apply_max_length_keeps [OF s2]
      apply_word_count_keeps [OF s3] apply_contains_character_keeps [OF s4]
    by simp
qed

lemma build_query_failures:
  "build_query q = Inl e \<Longrightarrow>
     e \<in> {InvalidFilterValue ''min_length'', InvalidFilterValue ''max_length'',
          InvalidFilterValue ''word_count'', InvalidFilterValue ''contains_character''}"
  using build_query_invalid [of q] by (auto split: if_splits)

text \<open>
  C10. A query that supplies \<open>is_palindrome\<close>, with any value: the call never fails on
  that parameter (every failure names one of the other four fields, and supplied alone
  the call succeeds), and the filter of every successful call has \<open>is_palindrome\<close> true
  when the value is exactly the string "true" and false for every other value.
\<close>

theorem is_palindrome_never_rejected:
  assumes "obj_get q (ascii ''is_palindrome'') = Some v"
  shows "fst (get_strings P q st) \<noteq> Failure (InvalidFilterValue ''is_palindrome'')
         \<and> (\<forall>data n fa. fst (get_strings P q st) = Listed data n fa
               \<longrightarrow> f_is_palindrome fa = Some (v = QStr (ascii ''true'')))
         \<and> (\<forall>e. fst (get_strings P q st) = Failure e
               \<longrightarrow> e \<in> {InvalidFilterValue ''min_length'', InvalidFilterValue ''max_length'',
                        InvalidFilterValue ''word_count'',
                        InvalidFilterValue ''contains_character''})
         \<and> (\<exists>data. fst (get_strings P [(ascii ''is_palindrome'', v)] st)
               = Listed data (length data)
                   (no_filters\<lparr> f_is_palindrome := Some (v = QStr (ascii ''true'')) \<rparr>))"
proof -
  have fails: "e \<in> {InvalidFilterValue ''min_length'', InvalidFilterValue ''max_length'',
                    InvalidFilterValue ''word_count'', InvalidFilterValue ''contains_character''}"
    if "fst (get_strings P q st) = Failure e" for e
  proof (cases "build_query q")
    case (Inl e')
    with that have "e' = e" by (simp add: get_strings_def)
    with Inl show ?thesis using build_query_failures by blast
  next
    case (Inr b)
    with that show ?thesis by (simp add: get_strings_def Let_def split: prod.splits)
  qed
  have not_pal: "fst (get_strings P q st) \<noteq> Failure (InvalidFilterValue ''is_palindrome'')"
    using fails by fastforce
  have listed: "f_is_palindrome fa = Some (v = QStr (ascii ''true''))"
    if "fst (get_strings P q st) = Listed data n fa" for data n fa
  proof (cases "build_query q")
    case (Inl e)
    with that show ?thesis by (simp add: get_strings_def)
  next
    case (Inr b)
    with that have "snd b = fa"
      by (auto simp: get_strings_def Let_def split: prod.splits)
    with build_query_is_palindrome [OF assms Inr] show ?thesis by simp
  qed
  have alone: "\<exists>data. fst (get_strings P [(ascii ''is_palindrome'', v)] st)
               = Listed data (length data)
                   (no_filters\<lparr> f_is_palindrome := Some (v = QStr (ascii ''true'')) \<rparr>)"
    by (simp add: get_strings_def build_query_def and_then_def apply_is_palindrome_def
        apply_min_length_def apply_max_length_def apply_word_count_def
        apply_contains_character_def Let_def ascii_def)
  show ?thesis
    using not_pal listed fails alone by blast
qed

theorem is_palindrome_never_rejected_witness:
  "obj_get [(ascii ''is_palindrome'', QStr (ascii ''TRUE''))] (ascii ''is_palindrome'')
     = Some (QStr (ascii ''TRUE''))
   \<and> get_strings basic_platform [(ascii ''is_palindrome'', QStr (ascii ''TRUE''))] [racecar_doc 1]
     = (Listed [] 0 (no_filters\<lparr> f_is_palindrome := Some False \<rparr>),
        [Find (no_query\<lparr> q_is_palindrome := Some False \<rparr>)])
   \<and> get_strings basic_platform [(ascii ''is_palindrome'', QStr (ascii ''true''))] [racecar_doc 1]
     = (Listed [racecar_doc 1] 1 (no_filters\<lparr> f_is_palindrome := Some True \<rparr>),
        [Find (no_query\<lparr> q_is_palindrome := Some True \<rparr>)])"
proof -
  have g: "obj_get [(ascii ''is_palindrome'', QStr (ascii ''TRUE''))] (ascii ''is_palindrome'')
     = Some (QStr (ascii ''TRUE''))"
    by simp
  have e1: "get_strings basic_platform [(ascii ''is_palindrome'', QStr (ascii ''TRUE''))] [racecar_doc 1]
     = (Listed [] 0 (no_filters\<lparr> f_is_palindrome := Some False \<rparr>),
        [Find (no_query\<lparr> q_is_palindrome := Some False \<rparr>)])"
    by code_simp
  have e2: "get_strings basic_platform [(ascii ''is_palindrome'', QStr (ascii ''true''))] [racecar_doc 1]
     = (Listed [racecar_doc 1] 1 (no_filters\<lparr> f_is_palindrome := Some True \<rparr>),
        [Find (no_query\<lparr> q_is_palindrome := Some True \<rparr>)])"
    by code_simp
  show ?thesis
    using g e1 e2
      is_palindrome_never_rejected [OF g, of basic_platform "[racecar_doc 1]"]
    by blast
qed

end
